theory Spec2Isabelle
  imports Complex_Main
begin

section \<open>JavaScript values shared by the modules\<close>

text \<open>
  A value that a JavaScript \<^verbatim>\<open>throw\<close> (or a rejected promise) carries. The routes and
  the adapters only ever ask two things of it: is it an \<^verbatim>\<open>instanceof Error\<close> (then its
  \<^verbatim>\<open>name\<close> and \<^verbatim>\<open>message\<close> are read), and is it a \<^verbatim>\<open>z.ZodError\<close>, which is the
  \<^verbatim>\<open>Error\<close> whose name is \<^verbatim>\<open>ZodError\<close>.
\<close>

datatype thrown =
    ErrorObj string string
  | NonErrorValue

primrec instanceof_Error :: "thrown \<Rightarrow> bool" where
  "instanceof_Error (ErrorObj n m) = True"
| "instanceof_Error NonErrorValue = False"

primrec error_name :: "thrown \<Rightarrow> string" where
  "error_name (ErrorObj n m) = n"
| "error_name NonErrorValue = []"

primrec error_message :: "thrown \<Rightarrow> string" where
  "error_message (ErrorObj n m) = m"
| "error_message NonErrorValue = []"

definition instanceof_ZodError :: "thrown \<Rightarrow> bool" where
  "instanceof_ZodError e = (instanceof_Error e \<and> error_name e = ''ZodError'')"

text \<open>\<^verbatim>\<open>x || d\<close> on an optional string: \<^verbatim>\<open>undefined\<close> and the empty string are falsy.\<close>

definition or_default :: "string option \<Rightarrow> string \<Rightarrow> string" where
  "or_default x d = (case x of None \<Rightarrow> d | Some s \<Rightarrow> if s = [] then d else s)"

text \<open>\<^verbatim>\<open>x || null\<close> on an optional string.\<close>

definition or_null :: "string option \<Rightarrow> string option" where
  "or_null x = (case x of None \<Rightarrow> None | Some s \<Rightarrow> if s = [] then None else Some s)"

text \<open>\<^verbatim>\<open>!x\<close> on an optional string.\<close>

definition falsy :: "string option \<Rightarrow> bool" where
  "falsy x = (case x of None \<Rightarrow> True | Some s \<Rightarrow> s = [])"

subsection \<open>\<^verbatim>\<open>parseInt(s, 10)\<close>\<close>

definition is_space :: "char \<Rightarrow> bool" where
  "is_space c = (c \<in> set [CHR '' '', CHR 0x09, CHR 0x0A, CHR 0x0B, CHR 0x0C, CHR 0x0D])"

definition digit_val :: "char \<Rightarrow> nat option" where
  "digit_val c =
     map_of [(CHR ''0'', 0), (CHR ''1'', 1), (CHR ''2'', 2), (CHR ''3'', 3), (CHR ''4'', 4),
             (CHR ''5'', 5), (CHR ''6'', 6), (CHR ''7'', 7), (CHR ''8'', 8), (CHR ''9'', 9)] c"

definition is_digit :: "char \<Rightarrow> bool" where
  "is_digit c = (digit_val c \<noteq> None)"

definition digits_val :: "string \<Rightarrow> nat" where
  "digits_val ds = foldl (\<lambda>acc c. 10 * acc + (case digit_val c of None \<Rightarrow> 0 | Some d \<Rightarrow> d)) 0 ds"

text \<open>
  A JavaScript number as far as this program reads one: \<^verbatim>\<open>NaN\<close>, an integer that a
  double holds exactly (magnitude at most \<open>2 ^ 53\<close>), or a value beyond that range, where
  \<^verbatim>\<open>parseInt\<close> rounds to a nearby double or to \<^verbatim>\<open>Infinity\<close> and the digits no longer
  say which.
\<close>

datatype js_number =
    NaN
  | Exact int
  | Beyond

text \<open>
  Leading white space is skipped, one sign is read, then the longest prefix of decimal
  digits; with no digit the result is \<^verbatim>\<open>NaN\<close>.
\<close>

definition parseInt10 :: "string \<Rightarrow> js_number" where
  "parseInt10 s =
     (let s1 = dropWhile is_space s;
          neg = (case s1 of [] \<Rightarrow> False | c # r \<Rightarrow> c = CHR ''-'');
          s2 = (case s1 of [] \<Rightarrow> [] | c # r \<Rightarrow> if c = CHR ''-'' \<or> c = CHR ''+'' then r else s1);
          ds = takeWhile is_digit s2
      in if ds = [] then NaN
         else if 9007199254740992 < digits_val ds then Beyond
         else Exact (if neg then - int (digits_val ds) else int (digits_val ds)))"

section \<open>AdapterFactory\<close>

text \<open>\<^verbatim>\<open>process.env\<close>: a variable is unset or holds a string.\<close>

type_synonym env = "string \<rightharpoonup> string"

datatype AdapterMode = ModeLocal | ModeSupabase

text \<open>
  \<^verbatim>\<open>new LocalExaiAdapter(daemonUrl, timeout)\<close>; the timeout is the result of
  \<^verbatim>\<open>parseInt\<close>, so it may be \<^verbatim>\<open>NaN\<close>.
\<close>

record LocalExaiAdapter =
  daemonUrl :: string
  timeout :: js_number

text \<open>
  \<^verbatim>\<open>new LocalDatabaseAdapter(prisma)\<close> holds nothing but the shared Prisma client; the
  database itself is the \<open>store\<close> below.
\<close>

datatype LocalDatabaseAdapter = LocalDatabaseAdapter

text \<open>The three static fields of the class.\<close>

record factory =
  exaiAdapter :: "LocalExaiAdapter option"
  databaseAdapter :: "LocalDatabaseAdapter option"
  currentMode :: "AdapterMode option"

text \<open>
  \<^verbatim>\<open>AdapterFactory.getMode\<close>. The cast \<^verbatim>\<open>as AdapterMode\<close> checks nothing at run time;
  the \<^verbatim>\<open>console.warn\<close> of the first branch has no effect on the result.
\<close>

definition getMode :: "env \<Rightarrow> AdapterMode" where
  "getMode e =
     (let mode = e ''ADAPTER_MODE'' in
      if mode \<noteq> Some ''local'' \<and> mode \<noteq> Some ''supabase'' then ModeLocal
      else if mode = Some ''local'' then ModeLocal else ModeSupabase)"

definition createExaiAdapter :: "env \<Rightarrow> factory \<Rightarrow> AdapterMode \<Rightarrow> (thrown + LocalExaiAdapter) \<times> factory" where
  "createExaiAdapter e f mode =
     (case mode of
        ModeLocal \<Rightarrow>
          (let a = \<lparr> daemonUrl = or_default (e ''EXAI_DAEMON_URL'') ''http://127.0.0.1:8765'',
                        timeout = parseInt10 (or_default (e ''EXAI_TIMEOUT'') ''300000'') \<rparr>
           in (Inr a, f\<lparr> exaiAdapter := Some a, currentMode := Some mode \<rparr>))
      | ModeSupabase \<Rightarrow>
          (Inl (ErrorObj ''Error'' ''Supabase EXAI adapter not yet implemented''), f))"

definition getExaiAdapter :: "env \<Rightarrow> factory \<Rightarrow> (thrown + LocalExaiAdapter) \<times> factory" where
  "getExaiAdapter e f =
     (let mode = getMode e in
      case exaiAdapter f of
        Some a \<Rightarrow> if currentMode f = Some mode then (Inr a, f) else createExaiAdapter e f mode
      | None \<Rightarrow> createExaiAdapter e f mode)"

definition createDatabaseAdapter :: "factory \<Rightarrow> AdapterMode \<Rightarrow> (thrown + LocalDatabaseAdapter) \<times> factory" where
  "createDatabaseAdapter f mode =
     (case mode of
        ModeLocal \<Rightarrow>
          (Inr LocalDatabaseAdapter,
           f\<lparr> databaseAdapter := Some LocalDatabaseAdapter, currentMode := Some mode \<rparr>)
      | ModeSupabase \<Rightarrow>
          (Inl (ErrorObj ''Error'' ''Supabase database adapter not yet implemented''), f))"

definition getDatabaseAdapter :: "env \<Rightarrow> factory \<Rightarrow> (thrown + LocalDatabaseAdapter) \<times> factory" where
  "getDatabaseAdapter e f =
     (let mode = getMode e in
      case databaseAdapter f of
        Some d \<Rightarrow> if currentMode f = Some mode then (Inr d, f) else createDatabaseAdapter f mode
      | None \<Rightarrow> createDatabaseAdapter f mode)"

definition reset :: "factory" where
  "reset = \<lparr> exaiAdapter = None, databaseAdapter = None, currentMode = None \<rparr>"


section \<open>Entities of the persistence contract (\<^verbatim>\<open>IDatabaseAdapter.ts\<close>)\<close>

type_synonym ident = string

text \<open>A \<^verbatim>\<open>Date\<close>, as a count of clock ticks.\<close>

type_synonym time = nat

text \<open>A JSON value, for the fields the TypeScript declares as \<^verbatim>\<open>any\<close>.\<close>

datatype json =
    JNull
  | JBool bool
  | JNum int
  | JStr string
  | JArr "json list"
  | JObj "(string \<times> json) list"

text \<open>
  \<^verbatim>\<open>ExaiResponse\<close> of \<^verbatim>\<open>IExaiAdapter.ts\<close>: the named fields the interface lists, the
  open index signature kept as a list of further keys.
\<close>

record ExaiResponse =
  er_status :: string
  er_content :: "string option"
  er_continuation_id :: "string option"
  er_step_number :: "int option"
  er_next_step_required :: "bool option"
  er_required_actions :: "string list option"
  er_expert_analysis :: "string option"
  er_more :: "(string \<times> json) list"

record Conversation =
  cv_id :: ident
  cv_title :: "string option"
  cv_toolType :: string
  cv_userId :: ident
  cv_createdAt :: time
  cv_updatedAt :: time

text \<open>
  \<^verbatim>\<open>Workflow.result\<close> is declared \<^verbatim>\<open>any\<close>; the only values the gateway ever stores
  there are \<^verbatim>\<open>null\<close> and an adapter response.
\<close>

record Workflow =
  wf_id :: ident
  wf_conversationId :: ident
  wf_toolType :: string
  wf_status :: string
  wf_currentStep :: int
  wf_totalSteps :: int
  wf_continuationId :: "string option"
  wf_result :: "ExaiResponse option"
  wf_createdAt :: time
  wf_updatedAt :: time

text \<open>
  \<^verbatim>\<open>WorkflowStep.metadata\<close> is declared \<^verbatim>\<open>any\<close>; the gateway stores objects with
  these keys, a key whose value is \<^verbatim>\<open>undefined\<close> being left out.
\<close>

record StepMetadata =
  md_step :: string
  md_relevant_files :: "string list option"
  md_files_checked :: "string list option"
  md_relevant_context :: "string list option"
  md_issues_found :: "json list option"
  md_response :: "ExaiResponse option"

record WorkflowStep =
  ws_id :: ident
  ws_workflowId :: ident
  ws_stepNumber :: int
  ws_findings :: string
  ws_hypothesis :: "string option"
  ws_confidence :: "string option"
  ws_status :: string
  ws_metadata :: StepMetadata
  ws_createdAt :: time

text \<open>The \<^verbatim>\<open>Create*Input\<close> types: the entity without its id and its timestamps.\<close>

record CreateConversationInput =
  cc_title :: "string option"
  cc_toolType :: string
  cc_userId :: ident

record CreateWorkflowInput =
  cw_conversationId :: ident
  cw_toolType :: string
  cw_status :: string
  cw_currentStep :: int
  cw_totalSteps :: int
  cw_continuationId :: "string option"
  cw_result :: "ExaiResponse option"

record CreateWorkflowStepInput =
  cs_workflowId :: ident
  cs_stepNumber :: int
  cs_findings :: string
  cs_hypothesis :: "string option"
  cs_confidence :: "string option"
  cs_status :: string
  cs_metadata :: StepMetadata

text \<open>
  The \<^verbatim>\<open>Update*Input\<close> types are \<^verbatim>\<open>Partial\<close>: a key that is absent
  (\<^verbatim>\<open>undefined\<close>) is \<open>None\<close>; for a nullable column \<open>Some None\<close> is an explicit
  \<^verbatim>\<open>null\<close>. \<^verbatim>\<open>UpdateConversationInput\<close> omits \<^verbatim>\<open>updatedAt\<close> in its type, but both
  routes pass \<^verbatim>\<open>{ updatedAt: new Date() }\<close> and the object reaches the adapter as it
  is, so the run-time shape has the key.
\<close>

record UpdateConversationInput =
  uc_title :: "string option option"
  uc_toolType :: "string option"
  uc_updatedAt :: "time option"

record UpdateWorkflowInput =
  uw_toolType :: "string option"
  uw_status :: "string option"
  uw_currentStep :: "int option"
  uw_totalSteps :: "int option"
  uw_continuationId :: "string option option"
  uw_result :: "ExaiResponse option option"

section \<open>The database behind the local adapter\<close>

text \<open>
  The three tables the gateway touches, rows in insertion order, and the counter behind
  the server-assigned ids.
\<close>

record store =
  conversations :: "Conversation list"
  workflows :: "Workflow list"
  workflowSteps :: "WorkflowStep list"
  next_id :: nat

subsection \<open>Decimal numerals\<close>

definition digit_char :: "nat \<Rightarrow> char" where
  "digit_char d = ''0123456789'' ! (d mod 10)"

function string_of_nat :: "nat \<Rightarrow> string" where
  "string_of_nat n =
     (if n < 10 then [digit_char n] else string_of_nat (n div 10) @ [digit_char (n mod 10)])"
  by pat_completeness auto
termination
  by (relation "measure id") auto

declare string_of_nat.simps [simp del]

text \<open>
  Ids are assigned by the database: the schema gives every table
  \<^verbatim>\<open>id String @id @default(cuid())\<close> (\<^verbatim>\<open>docs/03-architecture-requirements.md\<close>).
  The generator is Prisma's, not the repository's; what the handler relies on is that an
  id is a non-empty string no other row has. Here it is the next value of the store's
  counter behind the letter \<^verbatim>\<open>c\<close>.
\<close>

definition cuid :: "nat \<Rightarrow> ident" where
  "cuid n = CHR ''c'' # string_of_nat n"

text \<open>
  The errors of the Prisma client are \<^verbatim>\<open>Error\<close> objects. The code stands for the
  message, whose text is Prisma's: \<^verbatim>\<open>P2025\<close> when the row an update needs is not
  found, \<^verbatim>\<open>P2003\<close> when a foreign key of the schema has no target.
\<close>

definition prisma_not_found :: thrown where
  "prisma_not_found = ErrorObj ''PrismaClientKnownRequestError'' ''P2025''"

definition prisma_foreign_key :: thrown where
  "prisma_foreign_key = ErrorObj ''PrismaClientKnownRequestError'' ''P2003''"

text \<open>
  The columns \<^verbatim>\<open>currentStep\<close>, \<^verbatim>\<open>totalSteps\<close> and \<^verbatim>\<open>stepNumber\<close> are \<^verbatim>\<open>Int\<close> in the
  schema (\<^verbatim>\<open>INTEGER\<close> in the SQL migration): 32-bit signed. A value outside that range
  makes the Prisma call throw before any row is touched (\<^verbatim>\<open>P2020\<close>, value out of range
  for the type).
\<close>

definition fits_int32 :: "int \<Rightarrow> bool" where
  "fits_int32 n = (- 2147483648 \<le> n \<and> n \<le> 2147483647)"

definition prisma_out_of_range :: thrown where
  "prisma_out_of_range = ErrorObj ''PrismaClientKnownRequestError'' ''P2020''"

text \<open>\<^verbatim>\<open>update({ where, data })\<close> changes the one row the unique key selects.\<close>

primrec update_first :: "('a \<Rightarrow> bool) \<Rightarrow> ('a \<Rightarrow> 'a) \<Rightarrow> 'a list \<Rightarrow> 'a list" where
  "update_first P g [] = []"
| "update_first P g (x # xs) = (if P x then g x # xs else x # update_first P g xs)"

subsection \<open>\<^verbatim>\<open>LocalDatabaseAdapter\<close>\<close>

text \<open>
  Every method hands its argument to the Prisma client. What the client does with it is
  fixed by the schema of \<^verbatim>\<open>docs/03-architecture-requirements.md\<close>: ids and
  \<^verbatim>\<open>createdAt\<close> are assigned on insertion, \<^verbatim>\<open>updatedAt\<close> carries \<^verbatim>\<open>@updatedAt\<close>,
  \<^verbatim>\<open>Workflow.conversationId\<close> and \<^verbatim>\<open>WorkflowStep.workflowId\<close> are relations. The
  session's user is taken to exist, so the relation \<^verbatim>\<open>Conversation.userId\<close> is not
  checked.
\<close>

definition Local_createConversation ::
    "CreateConversationInput \<Rightarrow> time \<Rightarrow> store \<Rightarrow> (thrown + Conversation) \<times> store" where
  "Local_createConversation d now s =
     (let c = \<lparr> cv_id = cuid (next_id s), cv_title = cc_title d, cv_toolType = cc_toolType d,
                  cv_userId = cc_userId d, cv_createdAt = now, cv_updatedAt = now \<rparr>
      in (Inr c, s\<lparr> conversations := conversations s @ [c], next_id := Suc (next_id s) \<rparr>))"

definition Local_getConversation :: "ident \<Rightarrow> store \<Rightarrow> Conversation option" where
  "Local_getConversation i s = find (\<lambda>c. cv_id c = i) (conversations s)"

definition apply_UpdateConversationInput ::
    "UpdateConversationInput \<Rightarrow> time \<Rightarrow> Conversation \<Rightarrow> Conversation" where
  "apply_UpdateConversationInput d now c =
     c\<lparr> cv_title := (case uc_title d of None \<Rightarrow> cv_title c | Some t \<Rightarrow> t),
        cv_toolType := (case uc_toolType d of None \<Rightarrow> cv_toolType c | Some t \<Rightarrow> t),
        cv_updatedAt := (case uc_updatedAt d of None \<Rightarrow> now | Some t \<Rightarrow> t) \<rparr>"

definition Local_updateConversation ::
    "ident \<Rightarrow> UpdateConversationInput \<Rightarrow> time \<Rightarrow> store \<Rightarrow> (thrown + Conversation) \<times> store" where
  "Local_updateConversation i d now s =
     (case find (\<lambda>c. cv_id c = i) (conversations s) of
        None \<Rightarrow> (Inl prisma_not_found, s)
      | Some c \<Rightarrow>
          (Inr (apply_UpdateConversationInput d now c),
           s\<lparr> conversations :=
                update_first (\<lambda>c. cv_id c = i) (apply_UpdateConversationInput d now)
                  (conversations s) \<rparr>))"

definition Local_createWorkflow ::
    "CreateWorkflowInput \<Rightarrow> time \<Rightarrow> store \<Rightarrow> (thrown + Workflow) \<times> store" where
  "Local_createWorkflow d now s =
     (if \<not> (fits_int32 (cw_currentStep d) \<and> fits_int32 (cw_totalSteps d))
      then (Inl prisma_out_of_range, s)
      else if find (\<lambda>c. cv_id c = cw_conversationId d) (conversations s) = None
      then (Inl prisma_foreign_key, s)
      else
        (let w = \<lparr> wf_id = cuid (next_id s), wf_conversationId = cw_conversationId d,
                    wf_toolType = cw_toolType d, wf_status = cw_status d,
                    wf_currentStep = cw_currentStep d, wf_totalSteps = cw_totalSteps d,
                    wf_continuationId = cw_continuationId d, wf_result = cw_result d,
                    wf_createdAt = now, wf_updatedAt = now \<rparr>
         in (Inr w, s\<lparr> workflows := workflows s @ [w], next_id := Suc (next_id s) \<rparr>)))"

definition Local_getWorkflow :: "ident \<Rightarrow> store \<Rightarrow> Workflow option" where
  "Local_getWorkflow i s = find (\<lambda>w. wf_id w = i) (workflows s)"

definition apply_UpdateWorkflowInput :: "UpdateWorkflowInput \<Rightarrow> time \<Rightarrow> Workflow \<Rightarrow> Workflow" where
  "apply_UpdateWorkflowInput d now w =
     w\<lparr> wf_toolType := (case uw_toolType d of None \<Rightarrow> wf_toolType w | Some t \<Rightarrow> t),
        wf_status := (case uw_status d of None \<Rightarrow> wf_status w | Some t \<Rightarrow> t),
        wf_currentStep := (case uw_currentStep d of None \<Rightarrow> wf_currentStep w | Some n \<Rightarrow> n),
        wf_totalSteps := (case uw_totalSteps d of None \<Rightarrow> wf_totalSteps w | Some n \<Rightarrow> n),
        wf_continuationId :=
          (case uw_continuationId d of None \<Rightarrow> wf_continuationId w | Some c \<Rightarrow> c),
        wf_result := (case uw_result d of None \<Rightarrow> wf_result w | Some r \<Rightarrow> r),
        wf_updatedAt := now \<rparr>"

text \<open>The integers an update supplies must fit their columns.\<close>

definition UpdateWorkflowInput_fits :: "UpdateWorkflowInput \<Rightarrow> bool" where
  "UpdateWorkflowInput_fits d =
     ((case uw_currentStep d of None \<Rightarrow> True | Some n \<Rightarrow> fits_int32 n)
      \<and> (case uw_totalSteps d of None \<Rightarrow> True | Some n \<Rightarrow> fits_int32 n))"

definition Local_updateWorkflow ::
    "ident \<Rightarrow> UpdateWorkflowInput \<Rightarrow> time \<Rightarrow> store \<Rightarrow> (thrown + Workflow) \<times> store" where
  "Local_updateWorkflow i d now s =
     (if \<not> UpdateWorkflowInput_fits d then (Inl prisma_out_of_range, s)
      else case find (\<lambda>w. wf_id w = i) (workflows s) of
        None \<Rightarrow> (Inl prisma_not_found, s)
      | Some w \<Rightarrow>
          (Inr (apply_UpdateWorkflowInput d now w),
           s\<lparr> workflows :=
                update_first (\<lambda>w. wf_id w = i) (apply_UpdateWorkflowInput d now)
                  (workflows s) \<rparr>))"

definition Local_createWorkflowStep ::
    "CreateWorkflowStepInput \<Rightarrow> time \<Rightarrow> store \<Rightarrow> (thrown + WorkflowStep) \<times> store" where
  "Local_createWorkflowStep d now s =
     (if \<not> fits_int32 (cs_stepNumber d) then (Inl prisma_out_of_range, s)
      else if find (\<lambda>w. wf_id w = cs_workflowId d) (workflows s) = None
      then (Inl prisma_foreign_key, s)
      else
        (let r = \<lparr> ws_id = cuid (next_id s), ws_workflowId = cs_workflowId d,
                    ws_stepNumber = cs_stepNumber d, ws_findings = cs_findings d,
                    ws_hypothesis = cs_hypothesis d, ws_confidence = cs_confidence d,
                    ws_status = cs_status d, ws_metadata = cs_metadata d,
                    ws_createdAt = now \<rparr>
         in (Inr r, s\<lparr> workflowSteps := workflowSteps s @ [r], next_id := Suc (next_id s) \<rparr>)))"

text \<open>
  \<^verbatim>\<open>findMany({ where: { workflowId }, orderBy: { stepNumber: 'asc' } })\<close>. Rows with
  the same step number come in insertion order here; SQL leaves their order open.
\<close>

definition Local_getWorkflowSteps :: "ident \<Rightarrow> store \<Rightarrow> WorkflowStep list" where
  "Local_getWorkflowSteps i s =
     sort_key ws_stepNumber (filter (\<lambda>r. ws_workflowId r = i) (workflowSteps s))"


section \<open>The step payload and the tool execution adapters\<close>

text \<open>
  The object \<^verbatim>\<open>toolSchema\<close> describes (\<^verbatim>\<open>api/exai/[tool]/route.ts\<close>), which is also the
  \<^verbatim>\<open>ExaiToolParams\<close> the adapters send on. \<^verbatim>\<open>.passthrough()\<close> keeps every further key.
  A number constrained by \<^verbatim>\<open>.int()\<close> is an \<open>int\<close> here.
\<close>

record tool_body =
  step :: string
  step_number :: int
  total_steps :: int
  next_step_required :: bool
  findings :: string
  conversationId :: "string option"
  workflowId :: "string option"
  continuation_id :: "string option"
  hypothesis :: "string option"
  confidence :: "string option"
  model :: "string option"
  temperature :: "real option"
  thinking_mode :: "string option"
  use_websearch :: "bool option"
  files :: "string list option"
  images :: "string list option"
  relevant_files :: "string list option"
  files_checked :: "string list option"
  relevant_context :: "string list option"
  issues_found :: "json list option"
  backtrack_from_step :: "int option"
  passthrough :: "(string \<times> json) list"

text \<open>
  What one \<^verbatim>\<open>reader.read()\<close> of a response body gives before the body is done: the
  next piece of text (the bytes, decoded), or the error the read rejects with.
\<close>

datatype read_result =
    Piece string
  | ReadError thrown

text \<open>
  A \<^verbatim>\<open>Response\<close>: what \<^verbatim>\<open>response.json()\<close> gives (the parsed body, or the error it
  rejects with) and what reading \<^verbatim>\<open>response.body\<close> gives (\<open>None\<close> when the body is
  \<^verbatim>\<open>null\<close>).
\<close>

record fetch_response =
  fr_ok :: bool
  fr_status :: nat
  fr_statusText :: string
  fr_json :: "thrown + ExaiResponse"
  fr_body :: "read_result list option"

datatype fetch_outcome =
    Rejects thrown
  | Resolves fetch_response

text \<open>
  The daemon as the adapters see it: for the URL and the posted parameters, the time in
  milliseconds until the \<^verbatim>\<open>fetch\<close> would settle by itself, and how it would settle.
\<close>

type_synonym 'p daemon = "string \<Rightarrow> 'p \<Rightarrow> nat \<times> fetch_outcome"

definition AbortError :: thrown where
  "AbortError = ErrorObj ''AbortError'' ''This operation was aborted''"

text \<open>
  \<^verbatim>\<open>setTimeout(f, delay)\<close> in Node: a delay that is \<^verbatim>\<open>NaN\<close>, below 1 or above
  \<open>2147483647\<close> is set to 1.
\<close>

definition timer_delay :: "js_number \<Rightarrow> nat" where
  "timer_delay t =
     (case t of
        NaN \<Rightarrow> 1
      | Beyond \<Rightarrow> 1
      | Exact n \<Rightarrow> if n < 1 \<or> 2147483647 < n then 1 else nat n)"

text \<open>
  \<^verbatim>\<open>fetch\<close> with the signal of a controller that a timer aborts after \<open>delay\<close>
  milliseconds: when the timer fires no later than the \<^verbatim>\<open>fetch\<close> would settle, the
  \<^verbatim>\<open>fetch\<close> rejects with the error named \<^verbatim>\<open>AbortError\<close>. Once it has settled the
  timer is cleared.
\<close>

definition fetch_within :: "nat \<Rightarrow> nat \<times> fetch_outcome \<Rightarrow> fetch_outcome" where
  "fetch_within delay settles =
     (if delay \<le> fst settles then Rejects AbortError else snd settles)"

subsection \<open>Lines of a stream\<close>

text \<open>\<^verbatim>\<open>s.split('\n')\<close>: the pieces between line feeds, at least one.\<close>

primrec split_lines :: "string \<Rightarrow> string list" where
  "split_lines [] = [[]]"
| "split_lines (c # cs) =
     (if c = CHR 0x0A then [] # split_lines cs
      else (case split_lines cs of
              [] \<Rightarrow> [[c]]
            | l # ls \<Rightarrow> (c # l) # ls))"

text \<open>
  \<^verbatim>\<open>line.trim()\<close> is truthy: some character of the line is not white space. The
  white space here is that of ASCII; a line made of other white space only is not
  \<^verbatim>\<open>JSON\<close> either, so it yields nothing both ways.
\<close>

definition has_text :: "string \<Rightarrow> bool" where
  "has_text l = (\<exists>c \<in> set l. \<not> is_space c)"

text \<open>
  The \<^verbatim>\<open>try\<close> around \<^verbatim>\<open>JSON.parse\<close> and \<^verbatim>\<open>yield\<close>: a line that parses is yielded, one
  that does not is logged and dropped. \<open>parse\<close> stands for \<^verbatim>\<open>JSON.parse\<close>.
\<close>

definition yield_line :: "(string \<Rightarrow> json option) \<Rightarrow> string \<Rightarrow> json list" where
  "yield_line parse l =
     (if has_text l then (case parse l of None \<Rightarrow> [] | Some chunk \<Rightarrow> [chunk]) else [])"

text \<open>
  The \<^verbatim>\<open>while (true)\<close> loop and the lines after it, for the reads still to come and the
  buffer so far: the chunks yielded, and the error thrown if a read rejects.
\<close>

fun read_loop :: "(string \<Rightarrow> json option) \<Rightarrow> string \<Rightarrow> read_result list \<Rightarrow> json list \<times> thrown option" where
  "read_loop parse buffer [] = (yield_line parse buffer, None)"
| "read_loop parse buffer (ReadError err # rs) = ([], Some err)"
| "read_loop parse buffer (Piece v # rs) =
     (let lines = split_lines (buffer @ v);
          rest = read_loop parse (last lines) rs
      in (concat (map (yield_line parse) (butlast lines)) @ fst rest, snd rest))"

text \<open>A thrown error, if any, after it has gone through a \<^verbatim>\<open>catch\<close> clause.\<close>

definition rethrown :: "(thrown \<Rightarrow> thrown) \<Rightarrow> json list \<times> thrown option \<Rightarrow> json list \<times> thrown option" where
  "rethrown handler r = (fst r, map_option handler (snd r))"

subsection \<open>\<^verbatim>\<open>LocalExaiAdapter\<close>\<close>

text \<open>The \<^verbatim>\<open>catch\<close> clause of \<^verbatim>\<open>LocalExaiAdapter.makeRequest\<close>.\<close>

definition Local_makeRequest_catch :: "thrown \<Rightarrow> thrown" where
  "Local_makeRequest_catch err =
     (if instanceof_Error err
      then (if error_name err = ''AbortError''
            then ErrorObj ''Error'' ''EXAI request timeout''
            else ErrorObj ''Error'' (''EXAI request failed: '' @ error_message err))
      else err)"

text \<open>
  \<^verbatim>\<open>LocalExaiAdapter.makeRequest\<close>, which every \<^verbatim>\<open>execute...\<close> method calls with its
  endpoint. The \<^verbatim>\<open>throw\<close> for a response that is not \<^verbatim>\<open>ok\<close> stands inside the
  \<^verbatim>\<open>try\<close>, so it goes through the \<^verbatim>\<open>catch\<close> clause too.
\<close>

definition Local_makeRequest ::
    "LocalExaiAdapter \<Rightarrow> 'p daemon \<Rightarrow> string \<Rightarrow> 'p \<Rightarrow> thrown + ExaiResponse" where
  "Local_makeRequest a fetch endpoint params =
     (case fetch_within (timer_delay (timeout a)) (fetch (daemonUrl a @ endpoint) params) of
        Rejects err \<Rightarrow> Inl (Local_makeRequest_catch err)
      | Resolves response \<Rightarrow>
          if \<not> fr_ok response
          then Inl (Local_makeRequest_catch
                 (ErrorObj ''Error''
                    (''EXAI daemon error: '' @ string_of_nat (fr_status response) @ '' ''
                       @ fr_statusText response)))
          else (case fr_json response of
                  Inl err \<Rightarrow> Inl (Local_makeRequest_catch err)
                | Inr data \<Rightarrow> Inr data))"

definition Local_executeTool ::
    "LocalExaiAdapter \<Rightarrow> tool_body daemon \<Rightarrow> string \<Rightarrow> tool_body \<Rightarrow> thrown + ExaiResponse" where
  "Local_executeTool a fetch tool params = Local_makeRequest a fetch (''/'' @ tool) params"

text \<open>The \<^verbatim>\<open>catch\<close> clause of \<^verbatim>\<open>LocalExaiAdapter.streamResponse\<close>.\<close>

definition Local_streamResponse_catch :: "thrown \<Rightarrow> thrown" where
  "Local_streamResponse_catch err =
     (if instanceof_Error err
      then (if error_name err = ''AbortError''
            then ErrorObj ''Error'' ''EXAI stream timeout''
            else ErrorObj ''Error'' (''EXAI stream failed: '' @ error_message err))
      else err)"

text \<open>
  \<^verbatim>\<open>LocalExaiAdapter.streamResponse\<close>, for a consumer that takes every chunk: the chunks
  in the order they are yielded, and the error the generator ends with, if it throws.
\<close>

definition Local_streamResponse ::
    "LocalExaiAdapter \<Rightarrow> (string \<Rightarrow> json option) \<Rightarrow> 'p daemon \<Rightarrow> string \<Rightarrow> 'p
       \<Rightarrow> json list \<times> thrown option" where
  "Local_streamResponse a parse fetch tool params =
     rethrown Local_streamResponse_catch
       (case fetch_within (timer_delay (timeout a))
               (fetch (daemonUrl a @ ''/'' @ tool @ ''/stream'') params) of
          Rejects err \<Rightarrow> ([], Some err)
        | Resolves response \<Rightarrow>
            if \<not> fr_ok response
            then ([], Some (ErrorObj ''Error''
                              (''EXAI daemon error: '' @ string_of_nat (fr_status response)
                                 @ '' '' @ fr_statusText response)))
            else (case fr_body response of
                    None \<Rightarrow> ([], Some (ErrorObj ''Error'' ''Response body is null''))
                  | Some reads \<Rightarrow> read_loop parse [] reads))"

text \<open>
  \<^verbatim>\<open>LocalExaiAdapter.healthCheck\<close>: a \<^verbatim>\<open>GET\<close> with a limit of its own,
  \<^verbatim>\<open>AbortSignal.timeout(5000)\<close>; whatever is thrown becomes \<^verbatim>\<open>false\<close>.
\<close>

definition Local_healthCheck :: "LocalExaiAdapter \<Rightarrow> unit daemon \<Rightarrow> bool" where
  "Local_healthCheck a fetch =
     (case fetch_within 5000 (fetch (daemonUrl a @ ''/health'') ()) of
        Rejects err \<Rightarrow> False
      | Resolves response \<Rightarrow> fr_ok response)"

subsection \<open>\<^verbatim>\<open>SupabaseExaiAdapter\<close>\<close>

record SupabaseExaiAdapter =
  exaiUrl :: string
  sb_timeout :: js_number

text \<open>The constructor reads the environment itself.\<close>

definition new_SupabaseExaiAdapter :: "env \<Rightarrow> SupabaseExaiAdapter" where
  "new_SupabaseExaiAdapter e =
     \<lparr> exaiUrl = or_default (e ''EXAI_CLOUD_URL'')
                   (or_default (e ''EXAI_DAEMON_URL'') ''http://127.0.0.1:8765''),
       sb_timeout = parseInt10 (or_default (e ''EXAI_TIMEOUT'') ''300000'') \<rparr>"

definition Supabase_makeRequest_catch :: "thrown \<Rightarrow> thrown" where
  "Supabase_makeRequest_catch err =
     (if instanceof_Error err
      then (if error_name err = ''AbortError''
            then ErrorObj ''Error'' ''EXAI request timeout''
            else ErrorObj ''Error'' (''EXAI request failed: '' @ error_message err))
      else err)"

definition Supabase_makeRequest ::
    "SupabaseExaiAdapter \<Rightarrow> 'p daemon \<Rightarrow> string \<Rightarrow> 'p \<Rightarrow> thrown + ExaiResponse" where
  "Supabase_makeRequest a fetch endpoint params =
     (case fetch_within (timer_delay (sb_timeout a)) (fetch (exaiUrl a @ endpoint) params) of
        Rejects err \<Rightarrow> Inl (Supabase_makeRequest_catch err)
      | Resolves response \<Rightarrow>
          if \<not> fr_ok response
          then Inl (Supabase_makeRequest_catch
                 (ErrorObj ''Error''
                    (''EXAI daemon error: '' @ string_of_nat (fr_status response) @ '' ''
                       @ fr_statusText response)))
          else (case fr_json response of
                  Inl err \<Rightarrow> Inl (Supabase_makeRequest_catch err)
                | Inr data \<Rightarrow> Inr data))"

definition Supabase_executeTool ::
    "SupabaseExaiAdapter \<Rightarrow> tool_body daemon \<Rightarrow> string \<Rightarrow> tool_body \<Rightarrow> thrown + ExaiResponse" where
  "Supabase_executeTool a fetch tool params = Supabase_makeRequest a fetch (''/'' @ tool) params"

definition Supabase_streamResponse_catch :: "thrown \<Rightarrow> thrown" where
  "Supabase_streamResponse_catch err =
     (if instanceof_Error err
      then (if error_name err = ''AbortError''
            then ErrorObj ''Error'' ''EXAI stream timeout''
            else ErrorObj ''Error'' (''EXAI stream failed: '' @ error_message err))
      else err)"

definition Supabase_streamResponse ::
    "SupabaseExaiAdapter \<Rightarrow> (string \<Rightarrow> json option) \<Rightarrow> 'p daemon \<Rightarrow> string \<Rightarrow> 'p
       \<Rightarrow> json list \<times> thrown option" where
  "Supabase_streamResponse a parse fetch tool params =
     rethrown Supabase_streamResponse_catch
       (case fetch_within (timer_delay (sb_timeout a))
               (fetch (exaiUrl a @ ''/'' @ tool @ ''/stream'') params) of
          Rejects err \<Rightarrow> ([], Some err)
        | Resolves response \<Rightarrow>
            if \<not> fr_ok response
            then ([], Some (ErrorObj ''Error''
                              (''EXAI daemon error: '' @ string_of_nat (fr_status response)
                                 @ '' '' @ fr_statusText response)))
            else (case fr_body response of
                    None \<Rightarrow> ([], Some (ErrorObj ''Error'' ''Response body is null''))
                  | Some reads \<Rightarrow> read_loop parse [] reads))"

definition Supabase_healthCheck :: "SupabaseExaiAdapter \<Rightarrow> unit daemon \<Rightarrow> bool" where
  "Supabase_healthCheck a fetch =
     (case fetch_within 5000 (fetch (exaiUrl a @ ''/health'') ()) of
        Rejects err \<Rightarrow> False
      | Resolves response \<Rightarrow> fr_ok response)"


section \<open>The step submission route (\<^verbatim>\<open>api/exai/[tool]/route.ts\<close>)\<close>

definition VALID_TOOLS :: "string list" where
  "VALID_TOOLS =
     [''debug'', ''analyze'', ''codereview'', ''secaudit'', ''docgen'', ''testgen'',
      ''planner'', ''consensus'', ''precommit'', ''refactor'', ''tracer'', ''thinkdeep'']"

definition confidence_values :: "string list" where
  "confidence_values =
     [''exploring'', ''low'', ''medium'', ''high'', ''very_high'', ''almost_certain'', ''certain'']"

definition thinking_mode_values :: "string list" where
  "thinking_mode_values = [''minimal'', ''low'', ''medium'', ''high'', ''max'']"

text \<open>
  The constraints of \<^verbatim>\<open>toolSchema\<close> that a well-typed body can still break, each named by
  its key.
\<close>

definition zod_issues :: "tool_body \<Rightarrow> string list" where
  "zod_issues b =
     (if length (step b) < 1 then [''step''] else [])
     @ (if step_number b < 1 then [''step_number''] else [])
     @ (if total_steps b < 1 then [''total_steps''] else [])
     @ (case confidence b of
          None \<Rightarrow> []
        | Some c \<Rightarrow> if c \<in> set confidence_values then [] else [''confidence''])
     @ (case temperature b of
          None \<Rightarrow> []
        | Some t \<Rightarrow> if 0 \<le> t \<and> t \<le> 1 then [] else [''temperature''])
     @ (case thinking_mode b of
          None \<Rightarrow> []
        | Some m \<Rightarrow> if m \<in> set thinking_mode_values then [] else [''thinking_mode''])"

text \<open>
  \<^verbatim>\<open>toolSchema.parse\<close>. The message of the \<^verbatim>\<open>ZodError\<close> lists the keys at fault; its
  exact wording is Zod's.
\<close>

definition toolSchema_parse :: "tool_body \<Rightarrow> thrown + tool_body" where
  "toolSchema_parse b =
     (if zod_issues b = [] then Inr b
      else Inl (ErrorObj ''ZodError'' (concat (map (\<lambda>k. k @ '';'') (zod_issues b)))))"

text \<open>
  The body of the HTTP request: text that is not JSON (\<^verbatim>\<open>request.json()\<close> rejects with
  a \<^verbatim>\<open>SyntaxError\<close>), JSON in which a key of the schema is missing or has the wrong
  type, or JSON of the schema's shape.
\<close>

datatype body_in =
    BadJson string
  | IllTyped
  | Typed tool_body

definition read_body :: "body_in \<Rightarrow> thrown + tool_body" where
  "read_body b =
     (case b of
        BadJson m \<Rightarrow> Inl (ErrorObj ''SyntaxError'' m)
      | IllTyped \<Rightarrow> Inl (ErrorObj ''ZodError'' ''invalid_type;'')
      | Typed t \<Rightarrow> toolSchema_parse t)"

text \<open>
  The request: the \<^verbatim>\<open>tool\<close> segment of the path, the id of the session's user (\<open>None\<close>
  when \<^verbatim>\<open>getServerSession\<close> gives no user) and the body.
\<close>

record request =
  rq_tool :: string
  rq_session :: "ident option"
  rq_body :: body_in

datatype response_body =
    ErrorBody string
  | ValidationErrorBody string
  | StepResult ident ident ExaiResponse

record http_response =
  http_status :: nat
  http_body :: response_body

text \<open>The \<^verbatim>\<open>catch\<close> clause of \<^verbatim>\<open>POST\<close>.\<close>

definition POST_catch :: "thrown \<Rightarrow> http_response" where
  "POST_catch err =
     (if instanceof_ZodError err
      then \<lparr> http_status = 400, http_body = ValidationErrorBody (error_message err) \<rparr>
      else \<lparr> http_status = 500,
             http_body = ErrorBody (if instanceof_Error err then error_message err
                                    else ''Internal server error'') \<rparr>)"

text \<open>What the handler knows when it reaches the adapter call.\<close>

record call_context =
  cx_exai :: LocalExaiAdapter
  cx_tool :: string
  cx_params :: tool_body
  cx_conversationId :: ident
  cx_workflowId :: ident

text \<open>``Create or get conversation'': no conversation is loaded when an id is supplied.\<close>

definition resolve_conversation ::
    "string \<Rightarrow> ident \<Rightarrow> tool_body \<Rightarrow> time \<Rightarrow> store \<Rightarrow> (thrown + ident) \<times> store" where
  "resolve_conversation tool userId p now s =
     (if falsy (conversationId p)
      then (case Local_createConversation
                   \<lparr> cc_title = Some (tool @ '' - '' @ take 50 (step p)),
                     cc_toolType = tool, cc_userId = userId \<rparr> now s of
              (Inl err, s1) \<Rightarrow> (Inl err, s1)
            | (Inr conversation, s1) \<Rightarrow> (Inr (cv_id conversation), s1))
      else (Inr (or_default (conversationId p) []), s))"

text \<open>The \<^verbatim>\<open>data\<close> of the update of an existing workflow, made before the adapter is called.\<close>

definition update_for_step :: "tool_body \<Rightarrow> UpdateWorkflowInput" where
  "update_for_step p =
     \<lparr> uw_toolType = None,
       uw_status = Some (if next_step_required p then ''running'' else ''completed''),
       uw_currentStep = Some (step_number p),
       uw_totalSteps = Some (total_steps p),
       uw_continuationId = Some (or_null (continuation_id p)),
       uw_result = None \<rparr>"

text \<open>``Create or get workflow'': a supplied id is updated without being read first.\<close>

definition resolve_workflow ::
    "string \<Rightarrow> ident \<Rightarrow> tool_body \<Rightarrow> time \<Rightarrow> store \<Rightarrow> (thrown + ident) \<times> store" where
  "resolve_workflow tool conv p now s =
     (if falsy (workflowId p)
      then (case Local_createWorkflow
                   \<lparr> cw_conversationId = conv, cw_toolType = tool, cw_status = ''running'',
                     cw_currentStep = step_number p, cw_totalSteps = total_steps p,
                     cw_continuationId = or_null (continuation_id p), cw_result = None \<rparr> now s of
              (Inl err, s1) \<Rightarrow> (Inl err, s1)
            | (Inr workflow, s1) \<Rightarrow> (Inr (wf_id workflow), s1))
      else (case Local_updateWorkflow (or_default (workflowId p) []) (update_for_step p) now s of
              (Inl err, s1) \<Rightarrow> (Inl err, s1)
            | (Inr workflow, s1) \<Rightarrow> (Inr (or_default (workflowId p) []), s1)))"

text \<open>``Save workflow step'': the record written before the adapter is called.\<close>

definition running_step :: "ident \<Rightarrow> tool_body \<Rightarrow> CreateWorkflowStepInput" where
  "running_step wid p =
     \<lparr> cs_workflowId = wid, cs_stepNumber = step_number p, cs_findings = findings p,
       cs_hypothesis = or_null (hypothesis p), cs_confidence = or_null (confidence p),
       cs_status = ''running'',
       cs_metadata = \<lparr> md_step = step p, md_relevant_files = relevant_files p,
                       md_files_checked = files_checked p,
                       md_relevant_context = relevant_context p,
                       md_issues_found = issues_found p, md_response = None \<rparr> \<rparr>"

text \<open>The record written after the adapter has answered.\<close>

definition completed_step ::
    "ident \<Rightarrow> tool_body \<Rightarrow> WorkflowStep \<Rightarrow> ExaiResponse \<Rightarrow> CreateWorkflowStepInput" where
  "completed_step wid p currentStepRecord response =
     \<lparr> cs_workflowId = wid, cs_stepNumber = step_number p, cs_findings = findings p,
       cs_hypothesis = or_null (hypothesis p), cs_confidence = or_null (confidence p),
       cs_status = ''completed'',
       cs_metadata = (ws_metadata currentStepRecord)\<lparr> md_response := Some response \<rparr> \<rparr>"

text \<open>
  The handler from its first line up to the adapter call: either the response it
  returns early, or the context of the call. Each database call that throws leaves
  through the \<^verbatim>\<open>catch\<close> clause with the writes made so far in place.
\<close>

definition before_call ::
    "request \<Rightarrow> env \<Rightarrow> factory \<Rightarrow> time \<Rightarrow> store \<Rightarrow> (http_response + call_context) \<times> store" where
  "before_call rq e f now s =
     (let tool = rq_tool rq in
      if tool \<notin> set VALID_TOOLS
      then (Inl \<lparr> http_status = 400, http_body = ErrorBody (''Invalid tool: '' @ tool) \<rparr>, s)
      else case rq_session rq of
        None \<Rightarrow> (Inl \<lparr> http_status = 401, http_body = ErrorBody ''Unauthorized'' \<rparr>, s)
      | Some userId \<Rightarrow>
         (case read_body (rq_body rq) of
            Inl err \<Rightarrow> (Inl (POST_catch err), s)
          | Inr params_data \<Rightarrow>
             (case getExaiAdapter e f of
                (Inl err, f1) \<Rightarrow> (Inl (POST_catch err), s)
              | (Inr exai, f1) \<Rightarrow>
                 (case getDatabaseAdapter e f1 of
                    (Inl err, f2) \<Rightarrow> (Inl (POST_catch err), s)
                  | (Inr db, f2) \<Rightarrow>
                     (case resolve_conversation tool userId params_data now s of
                        (Inl err, s1) \<Rightarrow> (Inl (POST_catch err), s1)
                      | (Inr conv, s1) \<Rightarrow>
                         (case resolve_workflow tool conv params_data now s1 of
                            (Inl err, s2) \<Rightarrow> (Inl (POST_catch err), s2)
                          | (Inr wid, s2) \<Rightarrow>
                             (case Local_createWorkflowStep (running_step wid params_data) now s2 of
                                (Inl err, s3) \<Rightarrow> (Inl (POST_catch err), s3)
                              | (Inr r, s3) \<Rightarrow>
                                 (Inr \<lparr> cx_exai = exai, cx_tool = tool, cx_params = params_data,
                                        cx_conversationId = conv, cx_workflowId = wid \<rparr>,
                                  s3))))))))"

text \<open>The handler from the adapter's answer to its \<^verbatim>\<open>return\<close>.\<close>

definition record_outcome ::
    "call_context \<Rightarrow> ExaiResponse \<Rightarrow> time \<Rightarrow> store \<Rightarrow> (thrown + unit) \<times> store" where
  "record_outcome cx response now s =
     (let steps = Local_getWorkflowSteps (cx_workflowId cx) s in
      case find (\<lambda>r. ws_stepNumber r = step_number (cx_params cx)) steps of
        None \<Rightarrow> (Inr (), s)
      | Some currentStepRecord \<Rightarrow>
          (case Local_createWorkflowStep
                  (completed_step (cx_workflowId cx) (cx_params cx) currentStepRecord response)
                  now s of
             (Inl err, s1) \<Rightarrow> (Inl err, s1)
           | (Inr r, s1) \<Rightarrow> (Inr (), s1)))"

text \<open>``If workflow is complete, save final result'': the \<^verbatim>\<open>data\<close> of that update.\<close>

definition completed_with :: "ExaiResponse \<Rightarrow> UpdateWorkflowInput" where
  "completed_with response =
     \<lparr> uw_toolType = None, uw_status = Some ''completed'', uw_currentStep = None,
       uw_totalSteps = None, uw_continuationId = None, uw_result = Some (Some response) \<rparr>"

definition save_result ::
    "call_context \<Rightarrow> ExaiResponse \<Rightarrow> time \<Rightarrow> store \<Rightarrow> (thrown + unit) \<times> store" where
  "save_result cx response now s =
     (if \<not> next_step_required (cx_params cx)
      then (case Local_updateWorkflow (cx_workflowId cx) (completed_with response) now s of
              (Inl err, s1) \<Rightarrow> (Inl err, s1)
            | (Inr w, s1) \<Rightarrow> (Inr (), s1))
      else (Inr (), s))"

definition after_call ::
    "call_context \<Rightarrow> ExaiResponse \<Rightarrow> time \<Rightarrow> store \<Rightarrow> http_response \<times> store" where
  "after_call cx response now s =
     (case record_outcome cx response now s of
        (Inl err, s1) \<Rightarrow> (POST_catch err, s1)
      | (Inr u, s1) \<Rightarrow>
         (case save_result cx response now s1 of
            (Inl err, s2) \<Rightarrow> (POST_catch err, s2)
          | (Inr u, s2) \<Rightarrow>
             (case Local_updateConversation (cx_conversationId cx)
                     \<lparr> uc_title = None, uc_toolType = None, uc_updatedAt = Some now \<rparr> now s2 of
                (Inl err, s3) \<Rightarrow> (POST_catch err, s3)
              | (Inr c, s3) \<Rightarrow>
                 (\<lparr> http_status = 200,
                    http_body = StepResult (cx_conversationId cx) (cx_workflowId cx) response \<rparr>,
                  s3))))"

text \<open>
  \<^verbatim>\<open>POST\<close>: the response and the database it leaves. \<open>fetch\<close> is the daemon behind the
  adapter, \<open>now\<close> the clock.
\<close>

definition POST ::
    "request \<Rightarrow> env \<Rightarrow> factory \<Rightarrow> tool_body daemon \<Rightarrow> time \<Rightarrow> store \<Rightarrow> http_response \<times> store" where
  "POST rq e f fetch now s =
     (case before_call rq e f now s of
        (Inl early, s1) \<Rightarrow> (early, s1)
      | (Inr cx, s1) \<Rightarrow>
         (case Local_executeTool (cx_exai cx) fetch (cx_tool cx) (cx_params cx) of
            Inl err \<Rightarrow> (POST_catch err, s1)
          | Inr response \<Rightarrow> after_call cx response now s1))"


section \<open>Two submissions in flight\<close>

text \<open>
  The handler gives up control at every \<^verbatim>\<open>await\<close>, and another request may run between
  any two of them. The checks that open the handler (tool name, session, body, adapters)
  touch no row, so they are taken together with the first database call. What they
  yield when they pass: the adapter, the user and the parsed body.
\<close>

definition admit ::
    "request \<Rightarrow> env \<Rightarrow> factory \<Rightarrow> http_response + LocalExaiAdapter \<times> ident \<times> tool_body" where
  "admit rq e f =
     (let tool = rq_tool rq in
      if tool \<notin> set VALID_TOOLS
      then Inl \<lparr> http_status = 400, http_body = ErrorBody (''Invalid tool: '' @ tool) \<rparr>
      else case rq_session rq of
        None \<Rightarrow> Inl \<lparr> http_status = 401, http_body = ErrorBody ''Unauthorized'' \<rparr>
      | Some userId \<Rightarrow>
         (case read_body (rq_body rq) of
            Inl err \<Rightarrow> Inl (POST_catch err)
          | Inr params_data \<Rightarrow>
             (case getExaiAdapter e f of
                (Inl err, f1) \<Rightarrow> Inl (POST_catch err)
              | (Inr exai, f1) \<Rightarrow>
                 (case getDatabaseAdapter e f1 of
                    (Inl err, f2) \<Rightarrow> Inl (POST_catch err)
                  | (Inr db, f2) \<Rightarrow> Inr (exai, userId, params_data)))))"

text \<open>
  Where a request in flight stands: which call it makes next, with the local variables
  of the handler that are set by then.

    \<^item> \<open>Waiting\<close>: nothing done yet; next the conversation is created, if none was given;
    \<^item> \<open>Conversed\<close>: next \<^verbatim>\<open>createWorkflow\<close> or \<^verbatim>\<open>updateWorkflow\<close>;
    \<^item> \<open>Resolved\<close>: next \<^verbatim>\<open>createWorkflowStep\<close> with status \<^verbatim>\<open>running\<close>;
    \<^item> \<open>Called\<close>: next \<^verbatim>\<open>executeTool\<close>;
    \<^item> \<open>Answered\<close>: next \<^verbatim>\<open>getWorkflowSteps\<close>;
    \<^item> \<open>Looked\<close>: next \<^verbatim>\<open>createWorkflowStep\<close> with status \<^verbatim>\<open>completed\<close>, if
      \<^verbatim>\<open>currentStepRecord\<close> was found;
    \<^item> \<open>Recorded\<close>: next \<^verbatim>\<open>updateWorkflow\<close> with the result, if the step is the last;
    \<^item> \<open>Saved\<close>: next \<^verbatim>\<open>updateConversation\<close>;
    \<^item> \<open>Finished\<close>: the response has been returned.
\<close>

datatype progress =
    Waiting
  | Conversed LocalExaiAdapter string tool_body ident
  | Resolved call_context
  | Called call_context
  | Answered call_context ExaiResponse
  | Looked call_context ExaiResponse "WorkflowStep option"
  | Recorded call_context ExaiResponse
  | Saved call_context ExaiResponse
  | Finished http_response

text \<open>
  One turn of a request: the next call of the handler and what follows it up to the
  call after. A call that the handler skips is a turn that leaves the database as it
  is. A call that throws ends the request through the \<^verbatim>\<open>catch\<close> clause.
\<close>

definition advance ::
    "request \<Rightarrow> env \<Rightarrow> factory \<Rightarrow> tool_body daemon \<Rightarrow> time \<Rightarrow> progress \<Rightarrow> store
       \<Rightarrow> progress \<times> store" where
  "advance rq e f fetch now pr s =
     (case pr of
        Waiting \<Rightarrow>
          (case admit rq e f of
             Inl early \<Rightarrow> (Finished early, s)
           | Inr (exai, userId, params_data) \<Rightarrow>
               (case resolve_conversation (rq_tool rq) userId params_data now s of
                  (Inl err, s1) \<Rightarrow> (Finished (POST_catch err), s1)
                | (Inr conv, s1) \<Rightarrow> (Conversed exai (rq_tool rq) params_data conv, s1)))
      | Conversed exai tool params_data conv \<Rightarrow>
          (case resolve_workflow tool conv params_data now s of
             (Inl err, s1) \<Rightarrow> (Finished (POST_catch err), s1)
           | (Inr wid, s1) \<Rightarrow>
               (Resolved \<lparr> cx_exai = exai, cx_tool = tool, cx_params = params_data,
                           cx_conversationId = conv, cx_workflowId = wid \<rparr>, s1))
      | Resolved cx \<Rightarrow>
          (case Local_createWorkflowStep (running_step (cx_workflowId cx) (cx_params cx)) now s of
             (Inl err, s1) \<Rightarrow> (Finished (POST_catch err), s1)
           | (Inr r, s1) \<Rightarrow> (Called cx, s1))
      | Called cx \<Rightarrow>
          (case Local_executeTool (cx_exai cx) fetch (cx_tool cx) (cx_params cx) of
             Inl err \<Rightarrow> (Finished (POST_catch err), s)
           | Inr response \<Rightarrow> (Answered cx response, s))
      | Answered cx response \<Rightarrow>
          (Looked cx response
             (find (\<lambda>r. ws_stepNumber r = step_number (cx_params cx))
                (Local_getWorkflowSteps (cx_workflowId cx) s)), s)
      | Looked cx response found \<Rightarrow>
          (case found of
             None \<Rightarrow> (Recorded cx response, s)
           | Some currentStepRecord \<Rightarrow>
               (case Local_createWorkflowStep
                       (completed_step (cx_workflowId cx) (cx_params cx) currentStepRecord
                          response)
                       now s of
                  (Inl err, s1) \<Rightarrow> (Finished (POST_catch err), s1)
                | (Inr r, s1) \<Rightarrow> (Recorded cx response, s1)))
      | Recorded cx response \<Rightarrow>
          (case save_result cx response now s of
             (Inl err, s1) \<Rightarrow> (Finished (POST_catch err), s1)
           | (Inr u, s1) \<Rightarrow> (Saved cx response, s1))
      | Saved cx response \<Rightarrow>
          (case Local_updateConversation (cx_conversationId cx)
                  \<lparr> uc_title = None, uc_toolType = None, uc_updatedAt = Some now \<rparr> now s of
             (Inl err, s1) \<Rightarrow> (Finished (POST_catch err), s1)
           | (Inr c, s1) \<Rightarrow>
               (Finished \<lparr> http_status = 200,
                           http_body = StepResult (cx_conversationId cx) (cx_workflowId cx)
                                         response \<rparr>, s1))
      | Finished r \<Rightarrow> (Finished r, s))"

text \<open>A request that runs alone takes its turns one after the other.\<close>

primrec advance_times ::
    "nat \<Rightarrow> request \<Rightarrow> env \<Rightarrow> factory \<Rightarrow> tool_body daemon \<Rightarrow> time \<Rightarrow> progress \<times> store
       \<Rightarrow> progress \<times> store" where
  "advance_times 0 rq e f fetch now r = r"
| "advance_times (Suc n) rq e f fetch now r =
     advance_times n rq e f fetch now (advance rq e f fetch now (fst r) (snd r))"

datatype party = First | Second

text \<open>The two requests in flight and the database they share.\<close>

record in_flight =
  progress_of :: "party \<Rightarrow> progress"
  db :: store

definition turn ::
    "(party \<Rightarrow> request) \<Rightarrow> env \<Rightarrow> factory \<Rightarrow> tool_body daemon \<Rightarrow> party \<times> time
       \<Rightarrow> in_flight \<Rightarrow> in_flight" where
  "turn rqs e f fetch t st =
     (let x = fst t;
          r = advance (rqs x) e f fetch (snd t) (progress_of st x) (db st)
      in \<lparr> progress_of = (progress_of st)(x := fst r), db = snd r \<rparr>)"

text \<open>A schedule says whose turn it is, and at what time, one turn after the other.\<close>

primrec run ::
    "(party \<Rightarrow> request) \<Rightarrow> env \<Rightarrow> factory \<Rightarrow> tool_body daemon \<Rightarrow> (party \<times> time) list
       \<Rightarrow> in_flight \<Rightarrow> in_flight" where
  "run rqs e f fetch [] st = st"
| "run rqs e f fetch (t # ts) st = run rqs e f fetch ts (turn rqs e f fetch t st)"

definition start :: "store \<Rightarrow> in_flight" where
  "start s = \<lparr> progress_of = (\<lambda>x. Waiting), db = s \<rparr>"

text \<open>
  The second turn of a request that its first turn has not ended is the one that creates
  or updates the workflow. \<open>workflow_turns taken sch\<close> lists, in the order of the
  schedule \<open>sch\<close>, the requests as they make their second turn, \<open>taken x\<close> being the
  number of turns \<open>x\<close> has made before.
\<close>

primrec workflow_turns :: "(party \<Rightarrow> nat) \<Rightarrow> (party \<times> time) list \<Rightarrow> party list" where
  "workflow_turns taken [] = []"
| "workflow_turns taken (t # ts) =
     (if taken (fst t) = 1 then [fst t] else [])
       @ workflow_turns (taken(fst t := Suc (taken (fst t)))) ts"

text \<open>The current step of a stored workflow.\<close>

definition currentStep_of :: "ident \<Rightarrow> store \<Rightarrow> int option" where
  "currentStep_of wid s = map_option wf_currentStep (Local_getWorkflow wid s)"

text \<open>
  A request the handler takes as far as the update of the workflow \<open>wid\<close>, with a step
  number and a total that fit their columns.
\<close>

definition submits_to :: "request \<Rightarrow> tool_body \<Rightarrow> ident \<Rightarrow> bool" where
  "submits_to rq p wid =
     (rq_tool rq \<in> set VALID_TOOLS \<and> rq_session rq \<noteq> None
      \<and> read_body (rq_body rq) = Inr p \<and> workflowId p = Some wid \<and> wid \<noteq> []
      \<and> fits_int32 (step_number p) \<and> fits_int32 (total_steps p))"

text \<open>
  What holds of two such requests after any number of turns, \<open>taken\<close> counting the turns
  of each and \<open>us\<close> listing the workflow updates made: a request stands where its count
  says, the workflow is still there, and its current step is that of the last update.
\<close>

definition in_step ::
    "(party \<Rightarrow> request) \<Rightarrow> (party \<Rightarrow> tool_body) \<Rightarrow> ident \<Rightarrow> in_flight \<Rightarrow> (party \<Rightarrow> nat)
       \<Rightarrow> party list \<Rightarrow> bool" where
  "in_step rqs ps wid st taken us =
     ((\<forall>x. (taken x = 0 \<longrightarrow> progress_of st x = Waiting)
          \<and> (taken x = 1 \<longrightarrow>
               (\<exists>exai conv. progress_of st x = Conversed exai (rq_tool (rqs x)) (ps x) conv))
          \<and> (2 \<le> taken x \<longrightarrow>
               x \<in> set us \<and> progress_of st x \<noteq> Waiting
               \<and> (\<forall>exai tool p conv. progress_of st x \<noteq> Conversed exai tool p conv)))
      \<and> currentStep_of wid (db st) \<noteq> None
      \<and> (us \<noteq> [] \<longrightarrow> currentStep_of wid (db st) = Some (step_number (ps (last us)))))"

section \<open>\<^verbatim>\<open>SupabaseDatabaseAdapter\<close>: the conversation update\<close>

text \<open>
  The rows of \<^verbatim>\<open>exai_conversations\<close> carry the same data under snake-case column names
  and \<^verbatim>\<open>mapConversation\<close> renames them back, so a row is a \<open>Conversation\<close> here.
  \<^verbatim>\<open>.single()\<close> reports an error when no row matched, which the method throws as it
  is: the \<^verbatim>\<open>error\<close> field of the client's result, a plain object with a code
  (\<^verbatim>\<open>PGRST116\<close>) and a message, not an instance of \<^verbatim>\<open>Error\<close>.
\<close>

definition postgrest_no_rows :: thrown where
  "postgrest_no_rows = NonErrorValue"

text \<open>
  \<^verbatim>\<open>SupabaseDatabaseAdapter.updateConversation\<close> sends
  \<^verbatim>\<open>{ title: data.title, updated_at: new Date().toISOString() }\<close>: a title that is
  \<^verbatim>\<open>undefined\<close> drops out of the JSON body, and no other key of \<^verbatim>\<open>data\<close> is read.
\<close>

definition Supabase_updateConversation ::
    "ident \<Rightarrow> UpdateConversationInput \<Rightarrow> time \<Rightarrow> store \<Rightarrow> (thrown + Conversation) \<times> store" where
  "Supabase_updateConversation i d now s =
     (case find (\<lambda>c. cv_id c = i) (conversations s) of
        None \<Rightarrow> (Inl postgrest_no_rows, s)
      | Some c \<Rightarrow>
          (let upd = (\<lambda>c. c\<lparr> cv_title := (case uc_title d of None \<Rightarrow> cv_title c | Some t \<Rightarrow> t),
                              cv_updatedAt := now \<rparr>)
           in (Inr (upd c),
               s\<lparr> conversations := update_first (\<lambda>c. cv_id c = i) upd (conversations s) \<rparr>)))"

section \<open>Predicates used in the statements\<close>

text \<open>
  What the handler writes into the workflow before it calls the adapter: a workflow it
  creates starts as \<^verbatim>\<open>running\<close>, one it was given gets its status from
  \<^verbatim>\<open>next_step_required\<close>.
\<close>

definition step_applied :: "tool_body \<Rightarrow> Workflow \<Rightarrow> bool" where
  "step_applied p w =
     (wf_currentStep w = step_number p \<and> wf_totalSteps w = total_steps p
      \<and> wf_continuationId w = or_null (continuation_id p)
      \<and> wf_status w = (if falsy (workflowId p) \<or> next_step_required p
                        then ''running'' else ''completed''))"

text \<open>
  The database assigns ids that are new: an id the counter has yet to issue is the id of
  no stored row. The empty database has this property and every request keeps it
  (\<open>fresh_ids_POST\<close> below).
\<close>

definition fresh_ids :: "store \<Rightarrow> bool" where
  "fresh_ids s =
     (\<forall>n. next_id s \<le> n \<longrightarrow>
        cuid n \<notin> cv_id ` set (conversations s)
      \<and> cuid n \<notin> wf_id ` set (workflows s)
      \<and> cuid n \<notin> ws_id ` set (workflowSteps s))"

section \<open>Sample requests\<close>

text \<open>The scenarios of the specification, section 8, as values.\<close>

definition submission :: "int \<Rightarrow> bool \<Rightarrow> string option \<Rightarrow> string option \<Rightarrow> tool_body" where
  "submission n again conv wid =
     \<lparr> step = ''investigate crash'', step_number = n, total_steps = 3,
       next_step_required = again, findings = ''null pointer suspected'',
       conversationId = conv, workflowId = wid, continuation_id = None,
       hypothesis = None, confidence = None, model = None, temperature = None,
       thinking_mode = None, use_websearch = None, files = None, images = None,
       relevant_files = None, files_checked = None, relevant_context = None,
       issues_found = None, backtrack_from_step = None, passthrough = [] \<rparr>"

definition request_by :: "ident \<Rightarrow> tool_body \<Rightarrow> request" where
  "request_by user b = \<lparr> rq_tool = ''debug'', rq_session = Some user, rq_body = Typed b \<rparr>"

definition root_cause :: ExaiResponse where
  "root_cause =
     \<lparr> er_status = ''success'', er_content = Some ''root cause: X'',
       er_continuation_id = Some ''from-backend'', er_step_number = None,
       er_next_step_required = None, er_required_actions = None,
       er_expert_analysis = None, er_more = [] \<rparr>"

text \<open>
  A daemon that answers every call after 40 milliseconds, one that takes ten minutes, so
  that its calls run into the default timeout of five, and one that is down.
\<close>

definition answering :: "tool_body daemon" where
  "answering url p =
     (40, Resolves \<lparr> fr_ok = True, fr_status = 200, fr_statusText = ''OK'',
                      fr_json = Inr root_cause, fr_body = Some [] \<rparr>)"

definition timing_out :: "tool_body daemon" where
  "timing_out url p =
     (600000, Resolves \<lparr> fr_ok = True, fr_status = 200, fr_statusText = ''OK'',
                          fr_json = Inr root_cause, fr_body = Some [] \<rparr>)"

definition unreachable :: "tool_body daemon" where
  "unreachable url p = (3, Rejects (ErrorObj ''TypeError'' ''fetch failed''))"

text \<open>
  A stand-in for \<^verbatim>\<open>JSON.parse\<close> on the lines of a stream: the line \<^verbatim>\<open>null\<close> parses, and
  so does a line in double quotes, as the string between them; nothing else does.
\<close>

definition json_lines :: "string \<Rightarrow> json option" where
  "json_lines l =
     (if l = ''null'' then Some JNull
      else if 2 \<le> length l \<and> hd l = CHR 0x22 \<and> last l = CHR 0x22
      then Some (JStr (butlast (tl l)))
      else None)"

text \<open>
  A daemon that streams two chunks in three pieces, the second chunk cut in the middle,
  and then loses the connection.
\<close>

definition streaming :: "tool_body daemon" where
  "streaming url p =
     (40, Resolves \<lparr> fr_ok = True, fr_status = 200, fr_statusText = ''OK'',
                      fr_json = Inr root_cause,
                      fr_body = Some [Piece [CHR 0x22, CHR ''a'', CHR 0x22, CHR 0x0A, CHR 0x22],
                                      Piece [CHR ''b'', CHR 0x22, CHR 0x0A, CHR ''?''],
                                      ReadError (ErrorObj ''TypeError'' ''terminated'')] \<rparr>)"

definition default_adapter :: LocalExaiAdapter where
  "default_adapter = \<lparr> daemonUrl = ''http://127.0.0.1:8765'', timeout = Exact 300000 \<rparr>"

definition remote_adapter :: SupabaseExaiAdapter where
  "remote_adapter = \<lparr> exaiUrl = ''http://127.0.0.1:8765'', sb_timeout = Exact 300000 \<rparr>"

definition no_rows :: store where
  "no_rows = \<lparr> conversations = [], workflows = [], workflowSteps = [], next_id = 0 \<rparr>"

text \<open>
  Alice's conversation \<^verbatim>\<open>C1\<close> with its workflow \<^verbatim>\<open>W1\<close>, in a given status and at a
  given step of 3.
\<close>

definition stored :: "string \<Rightarrow> int \<Rightarrow> store" where
  "stored st n =
     \<lparr> conversations =
         [\<lparr> cv_id = ''C1'', cv_title = Some ''debug - investigate crash'', cv_toolType = ''debug'',
            cv_userId = ''alice'', cv_createdAt = 1, cv_updatedAt = 4 \<rparr>],
       workflows =
         [\<lparr> wf_id = ''W1'', wf_conversationId = ''C1'', wf_toolType = ''debug'', wf_status = st,
            wf_currentStep = n, wf_totalSteps = 3, wf_continuationId = None, wf_result = None,
            wf_createdAt = 1, wf_updatedAt = 4 \<rparr>],
       workflowSteps = [], next_id = 0 \<rparr>"

definition context_of :: "tool_body \<Rightarrow> ident \<Rightarrow> ident \<Rightarrow> call_context" where
  "context_of p conv wid =
     \<lparr> cx_exai = default_adapter, cx_tool = ''debug'', cx_params = p,
       cx_conversationId = conv, cx_workflowId = wid \<rparr>"

text \<open>Two submissions for \<^verbatim>\<open>W1\<close>: the first for step 3, the second for step 2.\<close>

definition racing :: "party \<Rightarrow> request" where
  "racing x =
     (case x of
        First \<Rightarrow> request_by ''alice'' (submission 3 True (Some ''C1'') (Some ''W1''))
      | Second \<Rightarrow> request_by ''alice'' (submission 2 True (Some ''C1'') (Some ''W1'')))"

definition racing_params :: "party \<Rightarrow> tool_body" where
  "racing_params x =
     (case x of
        First \<Rightarrow> submission 3 True (Some ''C1'') (Some ''W1'')
      | Second \<Rightarrow> submission 2 True (Some ''C1'') (Some ''W1''))"

definition accepted :: http_response where
  "accepted = \<lparr> http_status = 200, http_body = StepResult ''C1'' ''W1'' root_cause \<rparr>"

text \<open>The update of a conversation's tool type that \<^verbatim>\<open>UpdateConversationInput\<close> allows.\<close>

definition retype :: UpdateConversationInput where
  "retype = \<lparr> uc_title = None, uc_toolType = Some ''analyze'', uc_updatedAt = None \<rparr>"


section \<open>Lemmas about the model\<close>


lemma find_update_first:
  assumes "\<And>x. P x \<Longrightarrow> P (g x)"
  shows "find P (update_first P g xs) = map_option g (find P xs)"
  by (induction xs) (auto simp: assms)

lemma find_SomeD: "find P xs = Some x \<Longrightarrow> x \<in> set xs \<and> P x"
  by (induction xs) (auto split: if_splits)

lemma find_fresh_id:
  assumes "i \<notin> wf_id ` set ws"
  shows "find (\<lambda>w. wf_id w = i) ws = None"
proof (rule ccontr)
  assume "find (\<lambda>w. wf_id w = i) ws \<noteq> None"
  then obtain w where "find (\<lambda>w. wf_id w = i) ws = Some w" by blast
  then have "w \<in> set ws \<and> wf_id w = i" by (rule find_SomeD)
  then have "i \<in> wf_id ` set ws" by force
  with assms show False by contradiction
qed

lemma find_snoc:
  "find P (xs @ [y]) = (case find P xs of None \<Rightarrow> (if P y then Some y else None) | Some x \<Rightarrow> Some x)"
  by (induction xs) auto

lemma wf_id_apply_UpdateWorkflowInput [simp]:
  "wf_id (apply_UpdateWorkflowInput d now w) = wf_id w"
  by (simp add: apply_UpdateWorkflowInput_def)

lemma cv_id_apply_UpdateConversationInput [simp]:
  "cv_id (apply_UpdateConversationInput d now c) = cv_id c"
  by (simp add: apply_UpdateConversationInput_def)

lemma UpdateWorkflowInput_fits_update_for_step [simp]:
  "UpdateWorkflowInput_fits (update_for_step p)
     \<longleftrightarrow> fits_int32 (step_number p) \<and> fits_int32 (total_steps p)"
  by (simp add: UpdateWorkflowInput_fits_def update_for_step_def)

lemma UpdateWorkflowInput_fits_completed_with [simp]:
  "UpdateWorkflowInput_fits (completed_with response)"
  by (simp add: UpdateWorkflowInput_fits_def completed_with_def)

subsection \<open>What each database call leaves\<close>

lemma Local_updateConversation_frame:
  "workflows (snd (Local_updateConversation i d now s)) = workflows s"
  "workflowSteps (snd (Local_updateConversation i d now s)) = workflowSteps s"
  by (simp_all add: Local_updateConversation_def split: option.split)

lemma Local_createWorkflowStep_workflows [simp]:
  "workflows (snd (Local_createWorkflowStep d now s)) = workflows s"
  by (simp add: Local_createWorkflowStep_def Let_def)

subsection \<open>The two halves of the handler\<close>

lemma resolve_conversation_frame:
  "workflows (snd (resolve_conversation tool uid p now s)) = workflows s"
  "workflowSteps (snd (resolve_conversation tool uid p now s)) = workflowSteps s"
  "next_id s \<le> next_id (snd (resolve_conversation tool uid p now s))"
  by (simp_all add: resolve_conversation_def Local_createConversation_def Let_def)

lemma resolve_workflow_steps:
  "workflowSteps (snd (resolve_workflow tool conv p now s)) = workflowSteps s"
  by (simp add: resolve_workflow_def Local_createWorkflow_def Local_updateWorkflow_def Let_def
           split: option.split)

lemma resolve_workflow_fits:
  assumes "fst (resolve_workflow tool conv p now s) = Inr wid"
  shows "fits_int32 (step_number p)" and "fits_int32 (total_steps p)"
  using assms
  by (auto simp: resolve_workflow_def Local_createWorkflow_def Local_updateWorkflow_def Let_def
        split: if_splits)

lemma resolve_workflow_update:
  assumes "\<not> falsy (workflowId p)"
      and "Local_getWorkflow (or_default (workflowId p) []) s = Some w0"
      and "fits_int32 (step_number p)" and "fits_int32 (total_steps p)"
  shows "fst (resolve_workflow tool conv p now s) = Inr (or_default (workflowId p) [])"
    and "Local_getWorkflow (or_default (workflowId p) []) (snd (resolve_workflow tool conv p now s))
           = Some (apply_UpdateWorkflowInput (update_for_step p) now w0)"
  using assms
  by (simp_all add: resolve_workflow_def Local_updateWorkflow_def Local_getWorkflow_def
        find_update_first)

lemma resolve_workflow_update_missing:
  assumes "\<not> falsy (workflowId p)"
      and "Local_getWorkflow (or_default (workflowId p) []) s = None"
  shows "fst (resolve_workflow tool conv p now s)
           = Inl (if fits_int32 (step_number p) \<and> fits_int32 (total_steps p)
                  then prisma_not_found else prisma_out_of_range)"
    and "snd (resolve_workflow tool conv p now s) = s"
  using assms
  by (simp_all add: resolve_workflow_def Local_updateWorkflow_def Local_getWorkflow_def)

lemma resolve_workflow_Inr:
  assumes "fst (resolve_workflow tool conv p now s) = Inr wid"
      and "cuid (next_id s) \<notin> wf_id ` set (workflows s)"
  shows "\<exists>w. Local_getWorkflow wid (snd (resolve_workflow tool conv p now s)) = Some w
             \<and> step_applied p w"
proof (cases "falsy (workflowId p)")
  case True
  have "find (\<lambda>w. wf_id w = cuid (next_id s)) (workflows s) = None"
    using assms(2) by (rule find_fresh_id)
  with True assms(1) show ?thesis
    by (auto simp: resolve_workflow_def Local_createWorkflow_def Local_getWorkflow_def Let_def
          find_snoc step_applied_def split: if_splits)
next
  case False
  show ?thesis
  proof (cases "Local_getWorkflow (or_default (workflowId p) []) s")
    case None
    with False assms(1) show ?thesis
      by (simp add: resolve_workflow_update_missing)
  next
    case (Some w0)
    from resolve_workflow_update(1) [OF False Some resolve_workflow_fits [OF assms(1)], of tool conv now] assms(1)
    have "wid = or_default (workflowId p) []" by simp
    with False resolve_workflow_update(2) [OF False Some resolve_workflow_fits [OF assms(1)], of tool conv now] show ?thesis
      by (simp add: step_applied_def apply_UpdateWorkflowInput_def update_for_step_def)
  qed
qed

lemma resolve_workflow_exists:
  assumes "fst (resolve_workflow tool conv p now s) = Inr wid"
  shows "\<exists>w. Local_getWorkflow wid (snd (resolve_workflow tool conv p now s)) = Some w"
proof (cases "falsy (workflowId p)")
  case True
  with assms show ?thesis
    by (auto simp: resolve_workflow_def Local_createWorkflow_def Local_getWorkflow_def Let_def
          find_snoc split: if_splits option.splits)
next
  case False
  show ?thesis
  proof (cases "Local_getWorkflow (or_default (workflowId p) []) s")
    case None
    with False assms(1) show ?thesis
      by (simp add: resolve_workflow_update_missing)
  next
    case (Some w0)
    from resolve_workflow_update(1) [OF False Some resolve_workflow_fits [OF assms(1)], of tool conv now] assms(1)
    have "wid = or_default (workflowId p) []" by simp
    with resolve_workflow_update(2) [OF False Some resolve_workflow_fits [OF assms(1)], of tool conv now] show ?thesis
      by simp
  qed
qed


lemma before_call_Inr:
  assumes "fst (before_call rq e f now s) = Inr cx"
  shows "\<exists>uid s1 s2 r.
           rq_tool rq \<in> set VALID_TOOLS \<and> rq_session rq = Some uid
         \<and> read_body (rq_body rq) = Inr (cx_params cx) \<and> cx_tool cx = rq_tool rq
         \<and> fst (getExaiAdapter e f) = Inr (cx_exai cx)
         \<and> resolve_conversation (rq_tool rq) uid (cx_params cx) now s = (Inr (cx_conversationId cx), s1)
         \<and> resolve_workflow (rq_tool rq) (cx_conversationId cx) (cx_params cx) now s1
              = (Inr (cx_workflowId cx), s2)
         \<and> Local_createWorkflowStep (running_step (cx_workflowId cx) (cx_params cx)) now s2
              = (Inr r, snd (before_call rq e f now s))"
  using assms
  by (auto simp: before_call_def Let_def split: if_splits option.splits sum.splits prod.splits)

lemma before_call_fits:
  assumes "fst (before_call rq e f now s) = Inr cx"
  shows "fits_int32 (step_number (cx_params cx))"
proof -
  from before_call_Inr [OF assms] obtain s2 r where
    "Local_createWorkflowStep (running_step (cx_workflowId cx) (cx_params cx)) now s2
       = (Inr r, snd (before_call rq e f now s))"
    by blast
  then show ?thesis
    by (auto simp: Local_createWorkflowStep_def running_step_def Let_def split: if_splits)
qed

lemma before_call_workflow_exists:
  assumes "fst (before_call rq e f now s) = Inr cx"
  shows "\<exists>w. Local_getWorkflow (cx_workflowId cx) (snd (before_call rq e f now s)) = Some w"
proof -
  from before_call_Inr [OF assms] obtain uid s1 s2 r where
    rw: "resolve_workflow (rq_tool rq) (cx_conversationId cx) (cx_params cx) now s1
           = (Inr (cx_workflowId cx), s2)"
    and cs: "Local_createWorkflowStep (running_step (cx_workflowId cx) (cx_params cx)) now s2
           = (Inr r, snd (before_call rq e f now s))"
    by blast
  from rw have "fst (resolve_workflow (rq_tool rq) (cx_conversationId cx) (cx_params cx) now s1)
                  = Inr (cx_workflowId cx)" by simp
  from resolve_workflow_exists [OF this] rw
  obtain w where "Local_getWorkflow (cx_workflowId cx) s2 = Some w" by auto
  moreover have "workflows (snd (before_call rq e f now s)) = workflows s2"
    using Local_createWorkflowStep_workflows [of "running_step (cx_workflowId cx) (cx_params cx)" now s2]
    by (simp add: cs)
  ultimately show ?thesis by (simp add: Local_getWorkflow_def)
qed


lemma find_in_getWorkflowSteps:
  assumes "r \<in> set (workflowSteps s)" and "ws_workflowId r = wid" and "ws_stepNumber r = n"
  shows "\<exists>r'. find (\<lambda>x. ws_stepNumber x = n) (Local_getWorkflowSteps wid s) = Some r'"
proof (cases "find (\<lambda>x. ws_stepNumber x = n) (Local_getWorkflowSteps wid s)")
  case None
  then have "\<not> (\<exists>x. x \<in> set (Local_getWorkflowSteps wid s) \<and> ws_stepNumber x = n)"
    by (simp add: find_None_iff)
  moreover have "r \<in> set (Local_getWorkflowSteps wid s)"
    using assms by (simp add: Local_getWorkflowSteps_def)
  ultimately show ?thesis using assms(3) by blast
next
  case (Some r')
  then show ?thesis by blast
qed

lemma record_outcome_frame:
  "workflows (snd (record_outcome cx response now s)) = workflows s"
  "conversations (snd (record_outcome cx response now s)) = conversations s"
  "\<exists>new. workflowSteps (snd (record_outcome cx response now s)) = workflowSteps s @ new"
  by (simp_all add: record_outcome_def Local_createWorkflowStep_def Let_def split: option.split)

lemma record_outcome_inserts:
  assumes "Local_getWorkflow (cx_workflowId cx) s = Some w"
      and "r \<in> set (workflowSteps s)" and "ws_workflowId r = cx_workflowId cx"
      and "ws_stepNumber r = step_number (cx_params cx)"
      and "fits_int32 (step_number (cx_params cx))"
  shows "\<exists>r2. fst (record_outcome cx response now s) = Inr ()
            \<and> workflowSteps (snd (record_outcome cx response now s)) = workflowSteps s @ [r2]
            \<and> ws_workflowId r2 = cx_workflowId cx
            \<and> ws_stepNumber r2 = step_number (cx_params cx)
            \<and> ws_status r2 = ''completed''
            \<and> md_response (ws_metadata r2) = Some response"
proof -
  from find_in_getWorkflowSteps [OF assms(2,3,4)] obtain r' where
    "find (\<lambda>x. ws_stepNumber x = step_number (cx_params cx))
       (Local_getWorkflowSteps (cx_workflowId cx) s) = Some r'" by blast
  with assms(1,5) show ?thesis
    by (simp add: record_outcome_def Local_createWorkflowStep_def Local_getWorkflow_def
          completed_step_def Let_def)
qed

lemma save_result_frame:
  "workflowSteps (snd (save_result cx response now s)) = workflowSteps s"
  by (simp add: save_result_def Local_updateWorkflow_def split: option.split)

lemma save_result_workflow:
  assumes "Local_getWorkflow (cx_workflowId cx) s = Some w"
  shows "fst (save_result cx response now s) = Inr ()"
    and "Local_getWorkflow (cx_workflowId cx) (snd (save_result cx response now s))
           = Some (if next_step_required (cx_params cx) then w
                   else apply_UpdateWorkflowInput (completed_with response) now w)"
  using assms
  by (simp_all add: save_result_def Local_updateWorkflow_def Local_getWorkflow_def
        find_update_first)

lemma after_call_workflow:
  assumes "Local_getWorkflow (cx_workflowId cx) s = Some w"
      and "fits_int32 (step_number (cx_params cx))"
  shows "Local_getWorkflow (cx_workflowId cx) (snd (after_call cx response now s))
           = Some (if next_step_required (cx_params cx) then w
                   else apply_UpdateWorkflowInput (completed_with response) now w)"
proof -
  let ?s1 = "snd (record_outcome cx response now s)"
  let ?s2 = "snd (save_result cx response now ?s1)"
  have w1: "Local_getWorkflow (cx_workflowId cx) ?s1 = Some w"
    using assms(1) by (simp add: Local_getWorkflow_def record_outcome_frame)
  have ro: "fst (record_outcome cx response now s) = Inr ()"
    using assms
    by (simp add: record_outcome_def Local_createWorkflowStep_def Local_getWorkflow_def Let_def
          completed_step_def split: option.split)
  note sr = save_result_workflow [OF w1, of response now]
  have "workflows (snd (after_call cx response now s)) = workflows ?s2"
    using ro sr(1)
    by (simp add: after_call_def split_beta Local_updateConversation_frame split: sum.splits)
  then show ?thesis using sr(2) by (simp add: Local_getWorkflow_def)
qed

lemma after_call_steps:
  "\<exists>new. workflowSteps (snd (after_call cx response now s)) = workflowSteps s @ new"
proof -
  obtain new where "workflowSteps (snd (record_outcome cx response now s)) = workflowSteps s @ new"
    using record_outcome_frame(3) by blast
  then show ?thesis
    using save_result_frame [of cx response now "snd (record_outcome cx response now s)"]
    by (simp add: after_call_def split_beta Local_updateConversation_frame split: sum.splits)
qed


lemma Local_createWorkflowStep_InrD:
  assumes "Local_createWorkflowStep d now s = (Inr r, s')"
  shows "workflowSteps s' = workflowSteps s @ [r]" and "workflows s' = workflows s"
    and "conversations s' = conversations s"
    and "ws_workflowId r = cs_workflowId d" and "ws_stepNumber r = cs_stepNumber d"
    and "ws_status r = cs_status d" and "ws_metadata r = cs_metadata d"
    and "fits_int32 (cs_stepNumber d)"
  using assms
  by (auto simp: Local_createWorkflowStep_def Let_def split: if_splits)

lemma before_call_steps:
  "\<exists>new. workflowSteps (snd (before_call rq e f now s)) = workflowSteps s @ new"
  by (simp add: before_call_def Let_def split_beta resolve_conversation_frame
        resolve_workflow_steps Local_createWorkflowStep_def
      split: option.split sum.split)

lemma before_call_running_step:
  assumes "fst (before_call rq e f now s) = Inr cx"
  shows "\<exists>r. workflowSteps (snd (before_call rq e f now s)) = workflowSteps s @ [r]
           \<and> ws_workflowId r = cx_workflowId cx
           \<and> ws_stepNumber r = step_number (cx_params cx)
           \<and> ws_status r = ''running''
           \<and> md_response (ws_metadata r) = None"
proof -
  from before_call_Inr [OF assms] obtain uid s1 s2 r where
    rc: "resolve_conversation (rq_tool rq) uid (cx_params cx) now s = (Inr (cx_conversationId cx), s1)"
    and rw: "resolve_workflow (rq_tool rq) (cx_conversationId cx) (cx_params cx) now s1
           = (Inr (cx_workflowId cx), s2)"
    and cs: "Local_createWorkflowStep (running_step (cx_workflowId cx) (cx_params cx)) now s2
           = (Inr r, snd (before_call rq e f now s))"
    by blast
  have "workflowSteps s1 = workflowSteps s"
    using resolve_conversation_frame(2) [of "rq_tool rq" uid "cx_params cx" now s] rc by simp
  moreover have "workflowSteps s2 = workflowSteps s1"
    using resolve_workflow_steps [of "rq_tool rq" "cx_conversationId cx" "cx_params cx" now s1] rw
    by simp
  ultimately show ?thesis
    using Local_createWorkflowStep_InrD [OF cs] by (simp add: running_step_def)
qed

lemma before_call_step_applied:
  assumes "fst (before_call rq e f now s) = Inr cx" and "fresh_ids s"
  shows "\<exists>w. Local_getWorkflow (cx_workflowId cx) (snd (before_call rq e f now s)) = Some w
           \<and> step_applied (cx_params cx) w"
proof -
  from before_call_Inr [OF assms(1)] obtain uid s1 s2 r where
    rc: "resolve_conversation (rq_tool rq) uid (cx_params cx) now s = (Inr (cx_conversationId cx), s1)"
    and rw: "resolve_workflow (rq_tool rq) (cx_conversationId cx) (cx_params cx) now s1
           = (Inr (cx_workflowId cx), s2)"
    and cs: "Local_createWorkflowStep (running_step (cx_workflowId cx) (cx_params cx)) now s2
           = (Inr r, snd (before_call rq e f now s))"
    by blast
  have "workflows s1 = workflows s" and "next_id s \<le> next_id s1"
    using resolve_conversation_frame
            [where tool = "rq_tool rq" and uid = uid and p = "cx_params cx" and now = now and s = s] rc
    by simp_all
  with assms(2) have fr: "cuid (next_id s1) \<notin> wf_id ` set (workflows s1)"
    by (simp add: fresh_ids_def)
  from rw have fw: "fst (resolve_workflow (rq_tool rq) (cx_conversationId cx) (cx_params cx) now s1)
                  = Inr (cx_workflowId cx)" by simp
  from resolve_workflow_Inr [OF fw fr] rw
  obtain w where "Local_getWorkflow (cx_workflowId cx) s2 = Some w"
      and "step_applied (cx_params cx) w"
    by auto
  moreover have "workflows (snd (before_call rq e f now s)) = workflows s2"
    using Local_createWorkflowStep_InrD(2) [OF cs] .
  ultimately show ?thesis by (simp add: Local_getWorkflow_def)
qed

subsection \<open>The handler as a whole\<close>

lemma POST_success:
  assumes "fst (before_call rq e f now s) = Inr cx"
      and "Local_executeTool (cx_exai cx) fetch (cx_tool cx) (cx_params cx) = Inr response"
  shows "POST rq e f fetch now s = after_call cx response now (snd (before_call rq e f now s))"
  using assms by (simp add: POST_def split_beta)

lemma POST_failure:
  assumes "fst (before_call rq e f now s) = Inr cx"
      and "Local_executeTool (cx_exai cx) fetch (cx_tool cx) (cx_params cx) = Inl err"
  shows "POST rq e f fetch now s = (POST_catch err, snd (before_call rq e f now s))"
  using assms by (simp add: POST_def split_beta)

lemma POST_early:
  assumes "fst (before_call rq e f now s) = Inl early"
  shows "POST rq e f fetch now s = (early, snd (before_call rq e f now s))"
  using assms by (simp add: POST_def split_beta)

lemma POST_catch_status: "http_status (POST_catch err) = 400 \<or> http_status (POST_catch err) = 500"
  by (simp add: POST_catch_def)

lemma before_call_status:
  assumes "fst (before_call rq e f now s) = Inl early"
  shows "http_status early \<in> {400, 401, 500}"
  using assms POST_catch_status
  by (auto simp: before_call_def Let_def split_beta split: if_splits option.splits sum.splits)

lemma after_call_status: "http_status (fst (after_call cx response now s)) \<in> {200, 400, 500}"
  using POST_catch_status
  by (auto simp: after_call_def split_beta split: sum.splits)

lemma POST_status: "http_status (fst (POST rq e f fetch now s)) \<in> {200, 400, 401, 500}"
proof (cases "fst (before_call rq e f now s)")
  case (Inl early)
  from before_call_status [OF this] POST_early [OF Inl, of fetch] show ?thesis by auto
next
  case (Inr cx)
  show ?thesis
  proof (cases "Local_executeTool (cx_exai cx) fetch (cx_tool cx) (cx_params cx)")
    case (Inl err)
    from POST_failure [OF Inr Inl] POST_catch_status [of err] show ?thesis by auto
  next
    case (Inr response)
    from POST_success [OF \<open>fst (before_call rq e f now s) = Inr cx\<close> Inr]
      after_call_status [of cx response now "snd (before_call rq e f now s)"]
    show ?thesis by auto
  qed
qed

lemma Local_makeRequest_catch_not_Zod: "\<not> instanceof_ZodError (Local_makeRequest_catch err)"
  by (cases err) (simp_all add: Local_makeRequest_catch_def instanceof_ZodError_def)

lemma Local_executeTool_Inl:
  assumes "Local_executeTool a fetch tool p = Inl err"
  shows "\<not> instanceof_ZodError err"
  using assms Local_makeRequest_catch_not_Zod
  by (auto simp: Local_executeTool_def Local_makeRequest_def
           split: fetch_outcome.splits if_splits sum.splits)


lemma getExaiAdapter_local:
  assumes "getMode e = ModeLocal"
  shows "\<exists>a. fst (getExaiAdapter e f) = Inr a"
  using assms
  by (cases "exaiAdapter f")
     (simp_all add: getExaiAdapter_def createExaiAdapter_def Let_def)

lemma getDatabaseAdapter_local:
  assumes "getMode e = ModeLocal"
  shows "fst (getDatabaseAdapter e f) = Inr LocalDatabaseAdapter"
proof (cases "databaseAdapter f")
  case None
  with assms show ?thesis
    by (simp add: getDatabaseAdapter_def createDatabaseAdapter_def Let_def)
next
  case (Some d)
  with assms show ?thesis
    by (cases d) (simp add: getDatabaseAdapter_def createDatabaseAdapter_def Let_def)
qed

lemma resolve_conversation_Inr:
  "\<exists>conv. fst (resolve_conversation tool uid p now s) = Inr conv"
  by (simp add: resolve_conversation_def Local_createConversation_def Let_def)

lemma before_call_existing_workflow:
  assumes "rq_tool rq \<in> set VALID_TOOLS" and "rq_session rq = Some uid"
      and "read_body (rq_body rq) = Inr p" and "getMode e = ModeLocal"
      and "workflowId p = Some wid" and "wid \<noteq> []" and "Local_getWorkflow wid s = Some w0"
      and "fits_int32 (step_number p)" and "fits_int32 (total_steps p)"
  shows "\<exists>cx. fst (before_call rq e f now s) = Inr cx \<and> cx_workflowId cx = wid
              \<and> cx_params cx = p"
proof -
  obtain a where a: "fst (getExaiAdapter e f) = Inr a"
    using getExaiAdapter_local [OF assms(4)] by blast
  have d: "fst (getDatabaseAdapter e (snd (getExaiAdapter e f))) = Inr LocalDatabaseAdapter"
    using getDatabaseAdapter_local [OF assms(4)] .
  obtain conv where c: "fst (resolve_conversation (rq_tool rq) uid p now s) = Inr conv"
    using resolve_conversation_Inr by blast
  let ?s1 = "snd (resolve_conversation (rq_tool rq) uid p now s)"
  have nf: "\<not> falsy (workflowId p)" and od: "or_default (workflowId p) [] = wid"
    using assms(5,6) by (simp_all add: falsy_def or_default_def)
  have "Local_getWorkflow (or_default (workflowId p) []) ?s1 = Some w0"
    using assms(7) od by (simp add: Local_getWorkflow_def resolve_conversation_frame)
  note ru = resolve_workflow_update [OF nf this assms(8,9), of "rq_tool rq" conv now]
  let ?s2 = "snd (resolve_workflow (rq_tool rq) conv p now ?s1)"
  have "Local_getWorkflow (cs_workflowId (running_step wid p)) ?s2 \<noteq> None"
    using ru(2) od by (simp add: running_step_def)
  then obtain r where r: "fst (Local_createWorkflowStep (running_step wid p) now ?s2) = Inr r"
    using assms(8)
    by (auto simp: Local_createWorkflowStep_def Local_getWorkflow_def running_step_def Let_def)
  show ?thesis
    using assms(1,2,3) a d c ru(1) od r
    by (simp add: before_call_def Let_def split_beta)
qed


lemma after_call_inserts:
  assumes "Local_getWorkflow (cx_workflowId cx) s = Some w"
      and "r \<in> set (workflowSteps s)" and "ws_workflowId r = cx_workflowId cx"
      and "ws_stepNumber r = step_number (cx_params cx)"
      and "fits_int32 (step_number (cx_params cx))"
  shows "\<exists>r2. workflowSteps (snd (after_call cx response now s)) = workflowSteps s @ [r2]
            \<and> ws_workflowId r2 = cx_workflowId cx
            \<and> ws_stepNumber r2 = step_number (cx_params cx)
            \<and> ws_status r2 = ''completed''
            \<and> md_response (ws_metadata r2) = Some response"
proof -
  let ?s1 = "snd (record_outcome cx response now s)"
  let ?s2 = "snd (save_result cx response now ?s1)"
  from record_outcome_inserts [OF assms, of response now] obtain r2 where
    ro: "fst (record_outcome cx response now s) = Inr ()"
    and st: "workflowSteps ?s1 = workflowSteps s @ [r2]"
    and r2: "ws_workflowId r2 = cx_workflowId cx" "ws_stepNumber r2 = step_number (cx_params cx)"
            "ws_status r2 = ''completed''" "md_response (ws_metadata r2) = Some response"
    by blast
  have w1: "Local_getWorkflow (cx_workflowId cx) ?s1 = Some w"
    using assms(1) by (simp add: Local_getWorkflow_def record_outcome_frame)
  note sr = save_result_workflow(1) [OF w1, of response now]
  have "workflowSteps (snd (after_call cx response now s)) = workflowSteps ?s2"
    using ro sr
    by (simp add: after_call_def split_beta Local_updateConversation_frame split: sum.splits)
  with st r2 show ?thesis by (simp add: save_result_frame)
qed

lemma POST_steps:
  "\<exists>new. workflowSteps (snd (POST rq e f fetch now s)) = workflowSteps s @ new"
proof -
  obtain new where b: "workflowSteps (snd (before_call rq e f now s)) = workflowSteps s @ new"
    using before_call_steps by blast
  show ?thesis
  proof (cases "fst (before_call rq e f now s)")
    case (Inl early)
    from POST_early [OF this, of fetch] b show ?thesis by simp
  next
    case (Inr cx)
    show ?thesis
    proof (cases "Local_executeTool (cx_exai cx) fetch (cx_tool cx) (cx_params cx)")
      case (Inl err)
      from POST_failure [OF Inr Inl] b show ?thesis by simp
    next
      case (Inr response)
      obtain new' where
        "workflowSteps (snd (after_call cx response now (snd (before_call rq e f now s))))
           = workflowSteps (snd (before_call rq e f now s)) @ new'"
        using after_call_steps by blast
      with POST_success [OF \<open>fst (before_call rq e f now s) = Inr cx\<close> Inr] b
      show ?thesis by simp
    qed
  qed
qed

lemma POST_two_records:
  assumes "fst (before_call rq e f now s) = Inr cx"
      and "Local_executeTool (cx_exai cx) fetch (cx_tool cx) (cx_params cx) = Inr response"
  shows "\<exists>r1 r2. workflowSteps (snd (POST rq e f fetch now s)) = workflowSteps s @ [r1, r2]
            \<and> ws_workflowId r1 = cx_workflowId cx \<and> ws_workflowId r2 = cx_workflowId cx
            \<and> ws_stepNumber r1 = step_number (cx_params cx)
            \<and> ws_stepNumber r2 = step_number (cx_params cx)
            \<and> ws_status r1 = ''running'' \<and> ws_status r2 = ''completed''
            \<and> md_response (ws_metadata r1) = None
            \<and> md_response (ws_metadata r2) = Some response"
proof -
  let ?s3 = "snd (before_call rq e f now s)"
  obtain w where w: "Local_getWorkflow (cx_workflowId cx) ?s3 = Some w"
    using before_call_workflow_exists [OF assms(1)] by blast
  from before_call_running_step [OF assms(1)] obtain r1 where
    st: "workflowSteps ?s3 = workflowSteps s @ [r1]"
    and r1: "ws_workflowId r1 = cx_workflowId cx" "ws_stepNumber r1 = step_number (cx_params cx)"
            "ws_status r1 = ''running''" "md_response (ws_metadata r1) = None"
    by blast
  from st have mem: "r1 \<in> set (workflowSteps ?s3)" by simp
  from after_call_inserts [OF w mem r1(1,2) before_call_fits [OF assms(1)], of response now]
  obtain r2 where
    "workflowSteps (snd (after_call cx response now ?s3)) = workflowSteps ?s3 @ [r2]"
    and "ws_workflowId r2 = cx_workflowId cx" "ws_stepNumber r2 = step_number (cx_params cx)"
        "ws_status r2 = ''completed''" "md_response (ws_metadata r2) = Some response"
    by blast
  with st r1 POST_success [OF assms] show ?thesis by simp
qed

lemma POST_applies_step:
  assumes "fst (before_call rq e f now s) = Inr cx" and "fresh_ids s"
      and "Local_executeTool (cx_exai cx) fetch (cx_tool cx) (cx_params cx) = Inr response"
  shows "\<exists>w. Local_getWorkflow (cx_workflowId cx) (snd (POST rq e f fetch now s)) = Some w
           \<and> wf_continuationId w = or_null (continuation_id (cx_params cx))
           \<and> wf_currentStep w = step_number (cx_params cx)
           \<and> wf_totalSteps w = total_steps (cx_params cx)
           \<and> wf_status w = (if next_step_required (cx_params cx) then ''running''
                             else ''completed'')"
proof -
  from before_call_step_applied [OF assms(1,2)] obtain w where
    w: "Local_getWorkflow (cx_workflowId cx) (snd (before_call rq e f now s)) = Some w"
    and a: "step_applied (cx_params cx) w" by blast
  from after_call_workflow [OF w before_call_fits [OF assms(1)], of response now]
    POST_success [OF assms(1,3)] a
  show ?thesis
    by (simp add: step_applied_def apply_UpdateWorkflowInput_def completed_with_def)
qed

lemma before_call_given_workflow:
  assumes "rq_tool rq \<in> set VALID_TOOLS" and "rq_session rq = Some uid"
      and "read_body (rq_body rq) = Inr p" and "getMode e = ModeLocal"
      and "workflowId p = Some wid" and "wid \<noteq> []" and "Local_getWorkflow wid s = Some w0"
      and "fits_int32 (step_number p)" and "fits_int32 (total_steps p)"
  shows "\<exists>cx. fst (before_call rq e f now s) = Inr cx \<and> cx_workflowId cx = wid
            \<and> cx_params cx = p
            \<and> Local_getWorkflow wid (snd (before_call rq e f now s))
                = Some (apply_UpdateWorkflowInput (update_for_step p) now w0)"
proof -
  from before_call_existing_workflow [OF assms, of f now] obtain cx where
    b: "fst (before_call rq e f now s) = Inr cx" and cw: "cx_workflowId cx = wid"
    and cp: "cx_params cx = p" by blast
  have nf: "\<not> falsy (workflowId p)" and od: "or_default (workflowId p) [] = wid"
    using assms(5,6) by (simp_all add: falsy_def or_default_def)
  from before_call_Inr [OF b] obtain uid' s1 s2 r where
    rc: "resolve_conversation (rq_tool rq) uid' (cx_params cx) now s = (Inr (cx_conversationId cx), s1)"
    and rw: "resolve_workflow (rq_tool rq) (cx_conversationId cx) (cx_params cx) now s1
           = (Inr (cx_workflowId cx), s2)"
    and cs: "Local_createWorkflowStep (running_step (cx_workflowId cx) (cx_params cx)) now s2
           = (Inr r, snd (before_call rq e f now s))"
    by blast
  have "workflows s1 = workflows s"
    using resolve_conversation_frame(1) [of "rq_tool rq" uid' "cx_params cx" now s] rc by simp
  with assms(7) od have "Local_getWorkflow (or_default (workflowId p) []) s1 = Some w0"
    by (simp add: Local_getWorkflow_def)
  from resolve_workflow_update(2) [OF nf this assms(8,9), of "rq_tool rq" "cx_conversationId cx" now]
    rw cp od
  have "Local_getWorkflow wid s2 = Some (apply_UpdateWorkflowInput (update_for_step p) now w0)"
    by simp
  moreover have "workflows (snd (before_call rq e f now s)) = workflows s2"
    using Local_createWorkflowStep_InrD(2) [OF cs] .
  ultimately have "Local_getWorkflow wid (snd (before_call rq e f now s))
                        = Some (apply_UpdateWorkflowInput (update_for_step p) now w0)"
    by (simp add: Local_getWorkflow_def)
  with b cw cp show ?thesis by blast
qed

lemma POST_overwrites_given_workflow:
  assumes "rq_tool rq \<in> set VALID_TOOLS" and "rq_session rq = Some uid"
      and "read_body (rq_body rq) = Inr p" and "getMode e = ModeLocal"
      and "workflowId p = Some wid" and "wid \<noteq> []" and "Local_getWorkflow wid s = Some w0"
      and "fits_int32 (step_number p)" and "fits_int32 (total_steps p)"
  shows "\<exists>w. Local_getWorkflow wid (snd (POST rq e f fetch now s)) = Some w
           \<and> wf_currentStep w = step_number p \<and> wf_totalSteps w = total_steps p
           \<and> wf_continuationId w = or_null (continuation_id p)
           \<and> wf_status w = (if next_step_required p then ''running'' else ''completed'')"
proof -
  from before_call_given_workflow [OF assms, of f now] obtain cx where
    b: "fst (before_call rq e f now s) = Inr cx" and cw: "cx_workflowId cx = wid"
    and cp: "cx_params cx = p"
    and "Local_getWorkflow wid (snd (before_call rq e f now s))
           = Some (apply_UpdateWorkflowInput (update_for_step p) now w0)"
    by blast
  then have w: "Local_getWorkflow (cx_workflowId cx) (snd (before_call rq e f now s))
                  = Some (apply_UpdateWorkflowInput (update_for_step p) now w0)"
    by simp
  show ?thesis
  proof (cases "Local_executeTool (cx_exai cx) fetch (cx_tool cx) (cx_params cx)")
    case (Inl err)
    from POST_failure [OF b Inl] w cw show ?thesis
      by (simp add: apply_UpdateWorkflowInput_def update_for_step_def)
  next
    case (Inr response)
    from after_call_workflow [OF w before_call_fits [OF b], of response now]
      POST_success [OF b Inr] cw cp show ?thesis
      by (simp add: apply_UpdateWorkflowInput_def update_for_step_def completed_with_def)
  qed
qed

lemma POST_out_of_range:
  assumes "rq_tool rq \<in> set VALID_TOOLS" and "rq_session rq = Some uid"
      and "read_body (rq_body rq) = Inr p" and "getMode e = ModeLocal"
      and "workflowId p = Some wid" and "wid \<noteq> []" and "Local_getWorkflow wid s = Some w0"
      and "\<not> (fits_int32 (step_number p) \<and> fits_int32 (total_steps p))"
  shows "http_status (fst (POST rq e f fetch now s)) = 500"
    and "Local_getWorkflow wid (snd (POST rq e f fetch now s)) = Some w0"
proof -
  obtain a where a: "fst (getExaiAdapter e f) = Inr a"
    using getExaiAdapter_local [OF assms(4)] by blast
  have d: "fst (getDatabaseAdapter e (snd (getExaiAdapter e f))) = Inr LocalDatabaseAdapter"
    using getDatabaseAdapter_local [OF assms(4)] .
  obtain conv where c: "fst (resolve_conversation (rq_tool rq) uid p now s) = Inr conv"
    using resolve_conversation_Inr by blast
  let ?s1 = "snd (resolve_conversation (rq_tool rq) uid p now s)"
  have nf: "\<not> falsy (workflowId p)"
    using assms(5,6) by (simp add: falsy_def)
  from nf assms(8) have rw: "resolve_workflow (rq_tool rq) conv p now ?s1
                               = (Inl prisma_out_of_range, ?s1)"
    by (simp add: resolve_workflow_def Local_updateWorkflow_def)
  from assms(1,2,3) a d c rw
  have b: "before_call rq e f now s = (Inl (POST_catch prisma_out_of_range), ?s1)"
    by (simp add: before_call_def Let_def split_beta)
  then have p: "POST rq e f fetch now s = (POST_catch prisma_out_of_range, ?s1)"
    by (simp add: POST_def)
  from p show "http_status (fst (POST rq e f fetch now s)) = 500"
    by (simp add: POST_catch_def prisma_out_of_range_def instanceof_ZodError_def)
  from p assms(7) show "Local_getWorkflow wid (snd (POST rq e f fetch now s)) = Some w0"
    by (simp add: Local_getWorkflow_def resolve_conversation_frame)
qed

subsection \<open>Two requests in flight\<close>

lemma find_update_first_view:
  assumes "\<And>x. Q (g x) = Q x" and "\<And>x. h (g x) = h x"
  shows "map_option h (find Q (update_first P g xs)) = map_option h (find Q xs)"
  by (induction xs) (simp_all add: assms)

lemma currentStep_of_cong:
  "workflows s' = workflows s \<Longrightarrow> currentStep_of wid s' = currentStep_of wid s"
  by (simp add: currentStep_of_def Local_getWorkflow_def)

lemma save_result_currentStep:
  "currentStep_of wid (snd (save_result cx response now s)) = currentStep_of wid s"
proof -
  have "map_option wf_currentStep
          (find (\<lambda>w. wf_id w = wid)
             (update_first (\<lambda>w. wf_id w = cx_workflowId cx)
                (apply_UpdateWorkflowInput (completed_with response) now) (workflows s)))
        = map_option wf_currentStep (find (\<lambda>w. wf_id w = wid) (workflows s))"
    by (rule find_update_first_view)
       (simp_all add: apply_UpdateWorkflowInput_def completed_with_def)
  then show ?thesis
    by (simp add: save_result_def Local_updateWorkflow_def currentStep_of_def
          Local_getWorkflow_def split: option.split)
qed

lemma admit_passes:
  assumes "submits_to rq p wid" and "getMode e = ModeLocal"
  shows "\<exists>exai uid. admit rq e f = Inr (exai, uid, p)"
proof -
  from assms(1) obtain uid where v: "rq_tool rq \<in> set VALID_TOOLS" "rq_session rq = Some uid"
      "read_body (rq_body rq) = Inr p"
    by (auto simp: submits_to_def)
  obtain a where a: "fst (getExaiAdapter e f) = Inr a"
    using getExaiAdapter_local [OF assms(2)] by blast
  have d: "fst (getDatabaseAdapter e (snd (getExaiAdapter e f))) = Inr LocalDatabaseAdapter"
    using getDatabaseAdapter_local [OF assms(2)] .
  from v a d show ?thesis
    by (simp add: admit_def Let_def split_beta)
qed

text \<open>The first turn leaves the workflows alone.\<close>

lemma advance_Waiting:
  assumes "submits_to rq p wid" and "getMode e = ModeLocal"
  shows "\<exists>exai conv. fst (advance rq e f fetch now Waiting s) = Conversed exai (rq_tool rq) p conv"
    and "currentStep_of wid (snd (advance rq e f fetch now Waiting s)) = currentStep_of wid s"
proof -
  from admit_passes [OF assms] obtain exai uid where a: "admit rq e f = Inr (exai, uid, p)"
    by blast
  obtain conv where c: "fst (resolve_conversation (rq_tool rq) uid p now s) = Inr conv"
    using resolve_conversation_Inr by blast
  from a c show "\<exists>exai conv. fst (advance rq e f fetch now Waiting s)
                    = Conversed exai (rq_tool rq) p conv"
    by (simp add: advance_def split_beta)
  have "currentStep_of wid (snd (resolve_conversation (rq_tool rq) uid p now s))
          = currentStep_of wid s"
    by (rule currentStep_of_cong) (rule resolve_conversation_frame)
  with a c show "currentStep_of wid (snd (advance rq e f fetch now Waiting s))
                   = currentStep_of wid s"
    by (simp add: advance_def split_beta)
qed

text \<open>The second turn sets the current step.\<close>

lemma advance_Conversed:
  assumes "submits_to rq p wid" and "currentStep_of wid s \<noteq> None"
  shows "\<exists>cx. fst (advance rq e f fetch now (Conversed exai tool p conv) s) = Resolved cx"
    and "currentStep_of wid (snd (advance rq e f fetch now (Conversed exai tool p conv) s))
           = Some (step_number p)"
proof -
  from assms(1) have v: "workflowId p = Some wid" "wid \<noteq> []"
      "fits_int32 (step_number p)" "fits_int32 (total_steps p)"
    by (auto simp: submits_to_def)
  from assms(2) obtain w0 where w0: "Local_getWorkflow wid s = Some w0"
    by (auto simp: currentStep_of_def)
  have nf: "\<not> falsy (workflowId p)" and od: "or_default (workflowId p) [] = wid"
    using v(1,2) by (simp_all add: falsy_def or_default_def)
  from w0 od have "Local_getWorkflow (or_default (workflowId p) []) s = Some w0" by simp
  note ru = resolve_workflow_update [OF nf this v(3,4), of tool conv now]
  from ru(1) show "\<exists>cx. fst (advance rq e f fetch now (Conversed exai tool p conv) s) = Resolved cx"
    by (simp add: advance_def split_beta)
  from ru od show "currentStep_of wid (snd (advance rq e f fetch now (Conversed exai tool p conv) s))
           = Some (step_number p)"
    by (simp add: advance_def split_beta currentStep_of_def apply_UpdateWorkflowInput_def
          update_for_step_def)
qed

text \<open>No later turn changes it, and none leads back.\<close>

lemma advance_later:
  assumes "pr \<noteq> Waiting" and "\<forall>exai tool p conv. pr \<noteq> Conversed exai tool p conv"
  shows "fst (advance rq e f fetch now pr s) \<noteq> Waiting"
    and "\<forall>exai tool p conv. fst (advance rq e f fetch now pr s) \<noteq> Conversed exai tool p conv"
    and "currentStep_of wid (snd (advance rq e f fetch now pr s)) = currentStep_of wid s"
proof -
  have c: "currentStep_of wid (snd (Local_createWorkflowStep d now s)) = currentStep_of wid s"
    for d
    by (rule currentStep_of_cong) simp
  have u: "currentStep_of wid (snd (Local_updateConversation i d now s)) = currentStep_of wid s"
    for i d
    by (rule currentStep_of_cong) (rule Local_updateConversation_frame)
  note sr = save_result_currentStep [of wid _ _ now s]
  show "fst (advance rq e f fetch now pr s) \<noteq> Waiting"
    using assms
    by (cases pr) (simp_all add: advance_def split_beta split: sum.split option.split)
  show "\<forall>exai tool p conv. fst (advance rq e f fetch now pr s) \<noteq> Conversed exai tool p conv"
    using assms
    by (cases pr) (simp_all add: advance_def split_beta split: sum.split option.split)
  show "currentStep_of wid (snd (advance rq e f fetch now pr s)) = currentStep_of wid s"
    using assms
    by (cases pr) (simp_all add: advance_def split_beta c u sr split: sum.split option.split)
qed

lemma turn_sel:
  "progress_of (turn rqs e f fetch (x, now) st)
     = (progress_of st)(x := fst (advance (rqs x) e f fetch now (progress_of st x) (db st)))"
  "db (turn rqs e f fetch (x, now) st)
     = snd (advance (rqs x) e f fetch now (progress_of st x) (db st))"
  by (simp_all add: turn_def Let_def)

lemma turn_in_step:
  assumes sub: "\<And>y. submits_to (rqs y) (ps y) wid" and m: "getMode e = ModeLocal"
      and inv: "in_step rqs ps wid st taken us"
  shows "in_step rqs ps wid (turn rqs e f fetch (x, now) st) (taken(x := Suc (taken x)))
           (us @ (if taken x = 1 then [x] else []))"
proof -
  let ?r = "advance (rqs x) e f fetch now (progress_of st x) (db st)"
  from inv have ex: "currentStep_of wid (db st) \<noteq> None"
    and lst: "us \<noteq> [] \<longrightarrow> currentStep_of wid (db st) = Some (step_number (ps (last us)))"
    and t0: "\<And>y. taken y = 0 \<Longrightarrow> progress_of st y = Waiting"
    and t1: "\<And>y. taken y = 1 \<Longrightarrow>
               \<exists>exai conv. progress_of st y = Conversed exai (rq_tool (rqs y)) (ps y) conv"
    and t2: "\<And>y. 2 \<le> taken y \<Longrightarrow> y \<in> set us \<and> progress_of st y \<noteq> Waiting
               \<and> (\<forall>exai tool p conv. progress_of st y \<noteq> Conversed exai tool p conv)"
    by (simp_all add: in_step_def)
  have "taken x = 0 \<or> taken x = 1 \<or> 2 \<le> taken x" by arith
  then show ?thesis
  proof (elim disjE)
    assume z: "taken x = 0"
    from t0 [OF z] have w: "progress_of st x = Waiting" .
    from advance_Waiting [OF sub [of x] m, where f = f and fetch = fetch and now = now
                            and s = "db st"] w
    obtain exai conv where a: "fst ?r = Conversed exai (rq_tool (rqs x)) (ps x) conv"
      and b: "currentStep_of wid (snd ?r) = currentStep_of wid (db st)"
      by auto
    show ?thesis
      unfolding in_step_def turn_sel
      using z a b ex lst t0 t1 t2 by auto
  next
    assume o: "taken x = 1"
    from t1 [OF o] obtain exai conv where
      w: "progress_of st x = Conversed exai (rq_tool (rqs x)) (ps x) conv" by blast
    from advance_Conversed [OF sub [of x] ex, where e = e and f = f and fetch = fetch
                              and now = now and exai = exai and tool = "rq_tool (rqs x)"
                              and conv = conv] w
    obtain cx where a: "fst ?r = Resolved cx"
      and b: "currentStep_of wid (snd ?r) = Some (step_number (ps x))"
      by auto
    show ?thesis
      unfolding in_step_def turn_sel
      using o a b t0 t1 t2 by auto
  next
    assume l: "2 \<le> taken x"
    from t2 [OF l] have w: "progress_of st x \<noteq> Waiting"
        "\<forall>exai tool p conv. progress_of st x \<noteq> Conversed exai tool p conv"
      and xs: "x \<in> set us"
      by simp_all
    note a = advance_later(1,2) [OF w, where rq = "rqs x" and e = e and f = f and fetch = fetch
                                   and now = now and s = "db st"]
    have b: "currentStep_of wid (snd ?r) = currentStep_of wid (db st)"
      by (rule advance_later(3) [OF w])
    from l have n1: "taken x \<noteq> 1" by simp
    show ?thesis
      unfolding in_step_def turn_sel
      using l n1 a(1,2) b ex lst xs t0 t1 t2 by auto
  qed
qed

lemma run_in_step:
  assumes sub: "\<And>y. submits_to (rqs y) (ps y) wid" and m: "getMode e = ModeLocal"
  shows "in_step rqs ps wid st taken us
     \<Longrightarrow> \<exists>taken'. in_step rqs ps wid (run rqs e f fetch sch st) taken'
                      (us @ workflow_turns taken sch)"
proof (induction sch arbitrary: st taken us)
  case Nil
  then show ?case by auto
next
  case (Cons t ts)
  obtain x now where t: "t = (x, now)" by (cases t)
  from turn_in_step [OF sub m Cons.prems, where f = f and fetch = fetch and x = x and now = now]
  have "in_step rqs ps wid (turn rqs e f fetch t st) (taken(x := Suc (taken x)))
          (us @ (if taken x = 1 then [x] else []))"
    by (simp only: t)
  from Cons.IH [OF this] show ?case
    by (simp only: t run.simps workflow_turns.simps fst_conv append_assoc)
qed

lemma in_step_start:
  assumes "currentStep_of wid s \<noteq> None"
  shows "in_step rqs ps wid (start s) (\<lambda>x. 0) []"
  using assms by (simp add: in_step_def start_def)

text \<open>Once both requests have returned, the current step is that of the last workflow update.\<close>

lemma run_from_start:
  assumes "submits_to (rqs First) (ps First) wid" and "submits_to (rqs Second) (ps Second) wid"
      and "getMode e = ModeLocal" and "currentStep_of wid s \<noteq> None"
      and "progress_of (run rqs e f fetch sch (start s)) First = Finished ra"
      and "progress_of (run rqs e f fetch sch (start s)) Second = Finished rb"
  shows "First \<in> set (workflow_turns (\<lambda>x. 0) sch)"
    and "Second \<in> set (workflow_turns (\<lambda>x. 0) sch)"
    and "currentStep_of wid (db (run rqs e f fetch sch (start s)))
           = Some (step_number (ps (last (workflow_turns (\<lambda>x. 0) sch))))"
proof -
  have sub: "submits_to (rqs y) (ps y) wid" for y
    using assms(1,2) by (cases y) simp_all
  from run_in_step [where rqs = rqs and ps = ps and wid = wid and e = e and f = f
                      and fetch = fetch and sch = sch,
                    OF sub assms(3) in_step_start [OF assms(4)]]
  obtain taken' where
    i: "in_step rqs ps wid (run rqs e f fetch sch (start s)) taken' (workflow_turns (\<lambda>x. 0) sch)"
    by auto
  have two: "2 \<le> taken' y" for y
  proof -
    have fin: "\<exists>r. progress_of (run rqs e f fetch sch (start s)) y = Finished r"
      using assms(5,6) by (cases y) simp_all
    have "taken' y \<noteq> 0" using i fin by (auto simp: in_step_def)
    moreover have "taken' y \<noteq> 1" using i fin by (auto simp: in_step_def)
    ultimately show ?thesis by arith
  qed
  from i two [of First] show a: "First \<in> set (workflow_turns (\<lambda>x. 0) sch)"
    by (simp add: in_step_def)
  from i two [of Second] show "Second \<in> set (workflow_turns (\<lambda>x. 0) sch)"
    by (simp add: in_step_def)
  from a have "workflow_turns (\<lambda>x. 0) sch \<noteq> []" by auto
  with i show "currentStep_of wid (db (run rqs e f fetch sch (start s)))
           = Some (step_number (ps (last (workflow_turns (\<lambda>x. 0) sch))))"
    by (simp add: in_step_def)
qed

text \<open>A request that takes its eight turns alone, at one time, is the handler run from start to end.\<close>

lemma advance_to_call:
  "advance_times 3 rq e f fetch now (Waiting, s)
     = (case before_call rq e f now s of
          (Inl early, s1) \<Rightarrow> (Finished early, s1)
        | (Inr cx, s1) \<Rightarrow> (Called cx, s1))"
  by (simp add: eval_nat_numeral advance_def before_call_def admit_def Let_def split_beta
      split: sum.split option.split)

lemma advance_Finished [simp]:
  "advance_times n rq e f fetch now (Finished r, s) = (Finished r, s)"
  by (induction n) (simp_all add: advance_def)

lemma advance_from_answer:
  "advance_times 4 rq e f fetch now (Answered cx response, s)
     = (Finished (fst (after_call cx response now s)), snd (after_call cx response now s))"
  by (simp add: eval_nat_numeral advance_def after_call_def record_outcome_def Let_def split_beta
      split: sum.split option.split)

lemma advance_times_add:
  "advance_times (m + n) rq e f fetch now r
     = advance_times n rq e f fetch now (advance_times m rq e f fetch now r)"
  by (induction m arbitrary: r) simp_all

lemma advance_times_is_POST:
  "advance_times 8 rq e f fetch now (Waiting, s)
     = (Finished (fst (POST rq e f fetch now s)), snd (POST rq e f fetch now s))"
proof -
  have "advance_times 8 rq e f fetch now (Waiting, s)
          = advance_times 4 rq e f fetch now
              (advance_times 1 rq e f fetch now (advance_times 3 rq e f fetch now (Waiting, s)))"
    using advance_times_add [of 3 5 rq e f fetch now "(Waiting, s)"]
          advance_times_add [of 1 4 rq e f fetch now]
    by simp
  also have "\<dots> = (Finished (fst (POST rq e f fetch now s)), snd (POST rq e f fetch now s))"
    unfolding advance_to_call
    by (simp add: POST_def split_beta advance_from_answer advance_def
          split: sum.split)
  finally show ?thesis .
qed


subsection \<open>What the adapters throw\<close>

lemma Supabase_makeRequest_catch_eq: "Supabase_makeRequest_catch = Local_makeRequest_catch"
  by (rule ext) (simp add: Supabase_makeRequest_catch_def Local_makeRequest_catch_def)

lemma Supabase_streamResponse_catch_eq:
  "Supabase_streamResponse_catch = Local_streamResponse_catch"
  by (rule ext) (simp add: Supabase_streamResponse_catch_def Local_streamResponse_catch_def)

lemma fetch_within_timeout:
  assumes "delay \<le> fst settles"
  shows "fetch_within delay settles = Rejects AbortError"
  using assms by (simp add: fetch_within_def)

lemma catch_AbortError:
  "Local_makeRequest_catch AbortError = ErrorObj ''Error'' ''EXAI request timeout''"
  "Local_streamResponse_catch AbortError = ErrorObj ''Error'' ''EXAI stream timeout''"
  by (simp_all add: Local_makeRequest_catch_def Local_streamResponse_catch_def AbortError_def)

lemma Local_makeRequest_timeout:
  assumes "timer_delay (timeout a) \<le> fst (fetch (daemonUrl a @ endpoint) params)"
  shows "Local_makeRequest a fetch endpoint params
           = Inl (ErrorObj ''Error'' ''EXAI request timeout'')"
  by (simp add: Local_makeRequest_def fetch_within_timeout [OF assms] catch_AbortError)

lemma Supabase_makeRequest_timeout:
  assumes "timer_delay (sb_timeout b) \<le> fst (fetch (exaiUrl b @ endpoint) params)"
  shows "Supabase_makeRequest b fetch endpoint params
           = Inl (ErrorObj ''Error'' ''EXAI request timeout'')"
  by (simp add: Supabase_makeRequest_def fetch_within_timeout [OF assms]
        Supabase_makeRequest_catch_eq catch_AbortError)

lemma Local_streamResponse_timeout:
  assumes "timer_delay (timeout a) \<le> fst (fetch (daemonUrl a @ ''/'' @ tool @ ''/stream'') params)"
  shows "Local_streamResponse a parse fetch tool params
           = ([], Some (ErrorObj ''Error'' ''EXAI stream timeout''))"
  using fetch_within_timeout [OF assms]
  by (simp add: Local_streamResponse_def rethrown_def catch_AbortError)

lemma Supabase_streamResponse_timeout:
  assumes "timer_delay (sb_timeout b) \<le> fst (fetch (exaiUrl b @ ''/'' @ tool @ ''/stream'') params)"
  shows "Supabase_streamResponse b parse fetch tool params
           = ([], Some (ErrorObj ''Error'' ''EXAI stream timeout''))"
  using fetch_within_timeout [OF assms]
  by (simp add: Supabase_streamResponse_def rethrown_def Supabase_streamResponse_catch_eq
        catch_AbortError)

lemma Local_makeRequest_Inl:
  assumes "Local_makeRequest a fetch endpoint params = Inl t"
  shows "t \<in> range Local_makeRequest_catch"
proof (cases "fetch_within (timer_delay (timeout a)) (fetch (daemonUrl a @ endpoint) params)")
  case (Rejects err)
  with assms show ?thesis by (auto simp: Local_makeRequest_def)
next
  case (Resolves response)
  show ?thesis
  proof (cases "fr_ok response")
    case False
    with assms Resolves show ?thesis by (auto simp: Local_makeRequest_def)
  next
    case True
    with assms Resolves show ?thesis
      by (cases "fr_json response") (auto simp: Local_makeRequest_def)
  qed
qed

lemma Supabase_makeRequest_Inl:
  assumes "Supabase_makeRequest b fetch endpoint params = Inl t"
  shows "t \<in> range Local_makeRequest_catch"
proof (cases "fetch_within (timer_delay (sb_timeout b)) (fetch (exaiUrl b @ endpoint) params)")
  case (Rejects err)
  with assms show ?thesis
    by (auto simp: Supabase_makeRequest_def Supabase_makeRequest_catch_eq)
next
  case (Resolves response)
  show ?thesis
  proof (cases "fr_ok response")
    case False
    with assms Resolves show ?thesis
      by (auto simp: Supabase_makeRequest_def Supabase_makeRequest_catch_eq)
  next
    case True
    with assms Resolves show ?thesis
      by (cases "fr_json response")
         (auto simp: Supabase_makeRequest_def Supabase_makeRequest_catch_eq)
  qed
qed

lemma streamResponse_throws:
  assumes "snd (Local_streamResponse a parse fetch tool params) = Some t
           \<or> snd (Supabase_streamResponse b parse fetch tool params) = Some t"
  shows "t \<in> range Local_streamResponse_catch"
  using assms
  by (auto simp: Local_streamResponse_def Supabase_streamResponse_def rethrown_def
        Supabase_streamResponse_catch_eq)

lemma makeRequest_catch_shape:
  assumes "t \<in> range Local_makeRequest_catch" and "instanceof_Error t"
  shows "error_name t = ''Error''"
    and "error_message t = ''EXAI request timeout''
         \<or> (\<exists>m. error_message t = ''EXAI request failed: '' @ m)"
proof -
  from assms(1) obtain err where t: "t = Local_makeRequest_catch err" by blast
  with assms(2) have e: "instanceof_Error err"
    by (cases err) (simp_all add: Local_makeRequest_catch_def)
  from t e show "error_name t = ''Error''"
    by (simp add: Local_makeRequest_catch_def)
  show "error_message t = ''EXAI request timeout''
         \<or> (\<exists>m. error_message t = ''EXAI request failed: '' @ m)"
  proof (cases "error_name err = ''AbortError''")
    case True
    with t e show ?thesis by (simp add: Local_makeRequest_catch_def)
  next
    case False
    with t e have "error_message t = ''EXAI request failed: '' @ error_message err"
      by (simp add: Local_makeRequest_catch_def)
    then show ?thesis by blast
  qed
qed

lemma streamResponse_catch_shape:
  assumes "t \<in> range Local_streamResponse_catch" and "instanceof_Error t"
  shows "error_name t = ''Error''"
    and "error_message t = ''EXAI stream timeout''
         \<or> (\<exists>m. error_message t = ''EXAI stream failed: '' @ m)"
proof -
  from assms(1) obtain err where t: "t = Local_streamResponse_catch err" by blast
  with assms(2) have e: "instanceof_Error err"
    by (cases err) (simp_all add: Local_streamResponse_catch_def)
  from t e show "error_name t = ''Error''"
    by (simp add: Local_streamResponse_catch_def)
  show "error_message t = ''EXAI stream timeout''
         \<or> (\<exists>m. error_message t = ''EXAI stream failed: '' @ m)"
  proof (cases "error_name err = ''AbortError''")
    case True
    with t e show ?thesis by (simp add: Local_streamResponse_catch_def)
  next
    case False
    with t e have "error_message t = ''EXAI stream failed: '' @ error_message err"
      by (simp add: Local_streamResponse_catch_def)
    then show ?thesis by blast
  qed
qed

text \<open>A stream that breaks off after two chunks: the chunks are yielded, then the error is thrown.\<close>

lemma streamResponse_breaks_off:
  "Local_streamResponse default_adapter json_lines streaming ''debug'' (submission 1 True None None)
     = ([JStr ''a'', JStr ''b''], Some (ErrorObj ''Error'' ''EXAI stream failed: terminated''))"
  by (simp add: Local_streamResponse_def Local_streamResponse_catch_def rethrown_def
        fetch_within_def timer_delay_def default_adapter_def streaming_def yield_line_def
        has_text_def is_space_def json_lines_def Let_def)

text \<open>The health check never throws: a daemon that takes five seconds or more is reported as down.\<close>

lemma healthCheck_timeout:
  assumes "5000 \<le> fst (fetch (daemonUrl a @ ''/health'') ())"
      and "5000 \<le> fst (fetch (exaiUrl b @ ''/health'') ())"
  shows "\<not> Local_healthCheck a fetch" and "\<not> Supabase_healthCheck b fetch"
  using assms
  by (simp_all add: Local_healthCheck_def Supabase_healthCheck_def fetch_within_def)

subsection \<open>Ids stay fresh\<close>

text \<open>
  The counter is rendered in decimal, so different counter values give different ids, and
  every request leaves a database in which the ids still to be issued are unused.
\<close>


lemma digit_val_digit_char:
  assumes "d < 10"
  shows "digit_val (digit_char d) = Some d"
proof -
  from assms
  have "d = 0 \<or> d = 1 \<or> d = 2 \<or> d = 3 \<or> d = 4 \<or> d = 5 \<or> d = 6 \<or> d = 7 \<or> d = 8 \<or> d = 9"
    by arith
  then show ?thesis
    by (elim disjE) (simp_all add: digit_char_def digit_val_def)
qed

lemma digits_val_snoc:
  "digits_val (ds @ [c]) = 10 * digits_val ds + (case digit_val c of None \<Rightarrow> 0 | Some d \<Rightarrow> d)"
  by (simp add: digits_val_def)

lemma digits_val_string_of_nat: "digits_val (string_of_nat n) = n"
proof (induction n rule: string_of_nat.induct)
  case (1 n)
  show ?case
  proof (cases "n < 10")
    case True
    then show ?thesis
      by (simp add: string_of_nat.simps [of n] digits_val_def digit_val_digit_char)
  next
    case False
    with 1 have "digits_val (string_of_nat (n div 10)) = n div 10" by simp
    with False show ?thesis
      by (simp add: string_of_nat.simps [of n] digits_val_snoc digit_val_digit_char)
  qed
qed

lemma cuid_inject: "cuid m = cuid n \<longleftrightarrow> m = n"
proof
  assume "cuid m = cuid n"
  then have "digits_val (string_of_nat m) = digits_val (string_of_nat n)"
    by (simp add: cuid_def)
  then show "m = n" by (simp add: digits_val_string_of_nat)
qed simp

lemma set_update_first_image:
  assumes "\<And>x. h (g x) = h x"
  shows "h ` set (update_first P g xs) = h ` set xs"
  by (induction xs) (simp_all add: assms)

lemma fresh_ids_Local_createConversation:
  "fresh_ids s \<Longrightarrow> fresh_ids (snd (Local_createConversation d now s))"
  by (auto simp: fresh_ids_def Local_createConversation_def Let_def cuid_inject)

lemma fresh_ids_Local_createWorkflow:
  "fresh_ids s \<Longrightarrow> fresh_ids (snd (Local_createWorkflow d now s))"
  by (auto simp: fresh_ids_def Local_createWorkflow_def Let_def cuid_inject)

lemma fresh_ids_Local_createWorkflowStep:
  "fresh_ids s \<Longrightarrow> fresh_ids (snd (Local_createWorkflowStep d now s))"
  by (auto simp: fresh_ids_def Local_createWorkflowStep_def Let_def cuid_inject)

lemma fresh_ids_Local_updateWorkflow:
  "fresh_ids s \<Longrightarrow> fresh_ids (snd (Local_updateWorkflow i d now s))"
  by (simp add: fresh_ids_def Local_updateWorkflow_def set_update_first_image
        split: option.split)

lemma fresh_ids_Local_updateConversation:
  "fresh_ids s \<Longrightarrow> fresh_ids (snd (Local_updateConversation i d now s))"
  by (simp add: fresh_ids_def Local_updateConversation_def set_update_first_image
        split: option.split)

lemma fresh_ids_before_call:
  assumes "fresh_ids s"
  shows "fresh_ids (snd (before_call rq e f now s))"
proof -
  have c: "\<And>tool uid p. fresh_ids (snd (resolve_conversation tool uid p now s))"
    using assms
    by (simp add: resolve_conversation_def split_beta fresh_ids_Local_createConversation
          split: sum.split)
  have w: "\<And>tool conv p s'. fresh_ids s' \<Longrightarrow> fresh_ids (snd (resolve_workflow tool conv p now s'))"
    by (simp add: resolve_workflow_def split_beta fresh_ids_Local_createWorkflow
          fresh_ids_Local_updateWorkflow split: sum.split)
  show ?thesis
    using assms c w
    by (simp add: before_call_def Let_def split_beta fresh_ids_Local_createWorkflowStep
          split: option.split sum.split)
qed

lemma fresh_ids_after_call:
  assumes "fresh_ids s"
  shows "fresh_ids (snd (after_call cx response now s))"
proof -
  have r: "fresh_ids (snd (record_outcome cx response now s))"
    using assms
    by (simp add: record_outcome_def Let_def split_beta fresh_ids_Local_createWorkflowStep
          split: option.split sum.split)
  have v: "\<And>s'. fresh_ids s' \<Longrightarrow> fresh_ids (snd (save_result cx response now s'))"
    by (simp add: save_result_def split_beta fresh_ids_Local_updateWorkflow split: sum.split)
  show ?thesis
    using r v
    by (simp add: after_call_def split_beta fresh_ids_Local_updateConversation split: sum.split)
qed

lemma fresh_ids_POST:
  assumes "fresh_ids s"
  shows "fresh_ids (snd (POST rq e f fetch now s))"
  using fresh_ids_before_call [OF assms] fresh_ids_after_call
  by (simp add: POST_def split_beta split: sum.split)


section \<open>The claims\<close>

lemmas sample_defs =
  submission_def request_by_def root_cause_def answering_def timing_out_def unreachable_def
  default_adapter_def remote_adapter_def no_rows_def stored_def context_of_def AbortError_def

lemmas handler_defs =
  POST_def before_call_def after_call_def POST_catch_def instanceof_ZodError_def
  VALID_TOOLS_def read_body_def toolSchema_parse_def zod_issues_def
  getExaiAdapter_def getDatabaseAdapter_def createExaiAdapter_def createDatabaseAdapter_def
  getMode_def reset_def resolve_conversation_def resolve_workflow_def update_for_step_def
  completed_with_def falsy_def or_default_def or_null_def running_step_def completed_step_def
  record_outcome_def save_result_def Local_createConversation_def Local_createWorkflow_def
  Local_createWorkflowStep_def Local_updateConversation_def Local_updateWorkflow_def
  Local_getWorkflow_def Local_getWorkflowSteps_def Local_executeTool_def Local_makeRequest_def
  Local_makeRequest_catch_def apply_UpdateConversationInput_def apply_UpdateWorkflowInput_def
  cuid_def string_of_nat.simps digit_char_def parseInt10_def is_space_def is_digit_def
  digit_val_def digits_val_def prisma_not_found_def prisma_foreign_key_def
  prisma_out_of_range_def fits_int32_def UpdateWorkflowInput_fits_def fetch_within_def
  timer_delay_def Let_def

lemmas flight_defs =
  turn_def advance_def admit_def start_def racing_def accepted_def

lemma submission_sel:
  "step_number (submission n again conv wid) = n"
  "total_steps (submission n again conv wid) = 3"
  "next_step_required (submission n again conv wid) = again"
  "conversationId (submission n again conv wid) = conv"
  "workflowId (submission n again conv wid) = wid"
  "continuation_id (submission n again conv wid) = None"
  by (simp_all add: submission_def)

lemma context_of_sel:
  "cx_exai (context_of p conv wid) = default_adapter"
  "cx_tool (context_of p conv wid) = ''debug''"
  "cx_params (context_of p conv wid) = p"
  "cx_conversationId (context_of p conv wid) = conv"
  "cx_workflowId (context_of p conv wid) = wid"
  by (simp_all add: context_of_def)

lemma stored_sel:
  "workflowSteps (stored st n) = []"
  "workflowSteps no_rows = []"
  by (simp_all add: stored_def no_rows_def)

lemma fresh_ids_samples: "fresh_ids (stored st n)" "fresh_ids no_rows"
  by (simp_all add: fresh_ids_def stored_def no_rows_def cuid_def)

text \<open>
  Claim C4. A step submission with \<^verbatim>\<open>next_step_required = false\<close> whose adapter call is
  reached and succeeds leaves the workflow of the request, created by it or given to
  it, with status \<^verbatim>\<open>completed\<close> and with the adapter's response as its result.
  Here and below \<open>cx\<close> is what the handler holds when it calls the adapter: by
  \<open>before_call_Inr\<close> its parameters are the parsed body of the request and its workflow
  id is the one \<open>resolve_workflow\<close> returned.
\<close>

theorem final_step_completes_workflow:
  assumes "fst (before_call rq e f now s) = Inr cx"
      and "Local_executeTool (cx_exai cx) fetch (cx_tool cx) (cx_params cx) = Inr response"
      and "\<not> next_step_required (cx_params cx)"
  shows "\<exists>w. Local_getWorkflow (cx_workflowId cx) (snd (POST rq e f fetch now s)) = Some w
           \<and> wf_status w = ''completed'' \<and> wf_result w = Some response"
proof -
  obtain w where w: "Local_getWorkflow (cx_workflowId cx) (snd (before_call rq e f now s)) = Some w"
    using before_call_workflow_exists [OF assms(1)] by blast
  from after_call_workflow [OF w before_call_fits [OF assms(1)], of response now] assms(3)
    POST_success [OF assms(1,2)]
  show ?thesis
    by (simp add: apply_UpdateWorkflowInput_def completed_with_def)
qed

text \<open>The last step of a workflow that exists (scenario C), and a single-step workflow created by the request.\<close>

theorem final_step_completes_workflow_witness:
  "fst (before_call (request_by ''alice'' (submission 3 False (Some ''C1'') (Some ''W1'')))
          Map.empty reset 5 (stored ''running'' 2))
     = Inr (context_of (submission 3 False (Some ''C1'') (Some ''W1'')) ''C1'' ''W1'')
   \<and> (\<exists>w. Local_getWorkflow ''W1''
             (snd (POST (request_by ''alice'' (submission 3 False (Some ''C1'') (Some ''W1'')))
                     Map.empty reset answering 5 (stored ''running'' 2))) = Some w
          \<and> wf_status w = ''completed'' \<and> wf_result w = Some root_cause)
   \<and> fst (before_call (request_by ''alice'' (submission 1 False None None))
          Map.empty reset 5 no_rows)
     = Inr (context_of (submission 1 False None None) ''c0'' ''c1'')
   \<and> (\<exists>w. Local_getWorkflow ''c1''
             (snd (POST (request_by ''alice'' (submission 1 False None None))
                     Map.empty reset answering 5 no_rows)) = Some w
          \<and> wf_status w = ''completed'' \<and> wf_result w = Some root_cause)"
proof -
  let ?p = "submission 3 False (Some ''C1'') (Some ''W1'')"
  let ?q = "submission 1 False None None"
  have b1: "fst (before_call (request_by ''alice'' ?p) Map.empty reset 5 (stored ''running'' 2))
              = Inr (context_of ?p ''C1'' ''W1'')"
    by (simp add: sample_defs handler_defs)
  have x1: "Local_executeTool (cx_exai (context_of ?p ''C1'' ''W1'')) answering
              (cx_tool (context_of ?p ''C1'' ''W1'')) (cx_params (context_of ?p ''C1'' ''W1''))
              = Inr root_cause"
    by (simp add: sample_defs handler_defs)
  have n1: "\<not> next_step_required (cx_params (context_of ?p ''C1'' ''W1''))"
    by (simp add: sample_defs)
  have b2: "fst (before_call (request_by ''alice'' ?q) Map.empty reset 5 no_rows)
              = Inr (context_of ?q ''c0'' ''c1'')"
    by (simp add: sample_defs handler_defs)
  have x2: "Local_executeTool (cx_exai (context_of ?q ''c0'' ''c1'')) answering
              (cx_tool (context_of ?q ''c0'' ''c1'')) (cx_params (context_of ?q ''c0'' ''c1''))
              = Inr root_cause"
    by (simp add: sample_defs handler_defs)
  have n2: "\<not> next_step_required (cx_params (context_of ?q ''c0'' ''c1''))"
    by (simp add: sample_defs)
  from final_step_completes_workflow [OF b1 x1 n1] final_step_completes_workflow [OF b2 x2 n2]
       b1 b2
  show ?thesis by (simp add: context_of_def)
qed

text \<open>
  Claim C5, as amended. After a step submission whose adapter call succeeds, the
  workflow's continuation id is the one the request supplied (\<^verbatim>\<open>null\<close> when it supplied
  none, or an empty one), whatever continuation id the adapter's response carries; its
  current step is the submitted step number, its total the submitted total, and its
  status is \<^verbatim>\<open>running\<close> when a next step is required and \<^verbatim>\<open>completed\<close> otherwise.
\<close>

theorem workflow_keeps_request_continuation:
  assumes "fst (before_call rq e f now s) = Inr cx"
      and "fresh_ids s"
      and "Local_executeTool (cx_exai cx) fetch (cx_tool cx) (cx_params cx) = Inr response"
  shows "\<exists>w. Local_getWorkflow (cx_workflowId cx) (snd (POST rq e f fetch now s)) = Some w
           \<and> wf_continuationId w = or_null (continuation_id (cx_params cx))
           \<and> wf_currentStep w = step_number (cx_params cx)
           \<and> wf_totalSteps w = total_steps (cx_params cx)
           \<and> wf_status w = (if next_step_required (cx_params cx) then ''running''
                             else ''completed'')"
  using assms by (rule POST_applies_step)

text \<open>Scenario B with a continuation id in the request; the daemon answers with another one.\<close>

theorem workflow_keeps_request_continuation_witness:
  "fresh_ids (stored ''running'' 1)
   \<and> er_continuation_id root_cause = Some ''from-backend''
   \<and> (\<exists>w. Local_getWorkflow ''W1''
             (snd (POST (request_by ''alice''
                          ((submission 2 True (Some ''C1'') (Some ''W1''))
                             \<lparr> continuation_id := Some ''from-client'' \<rparr>))
                     Map.empty reset answering 5 (stored ''running'' 1))) = Some w
          \<and> wf_continuationId w = Some ''from-client'' \<and> wf_currentStep w = 2
          \<and> wf_totalSteps w = 3 \<and> wf_status w = ''running'')"
proof -
  let ?p = "(submission 2 True (Some ''C1'') (Some ''W1'')) \<lparr> continuation_id := Some ''from-client'' \<rparr>"
  have b: "fst (before_call (request_by ''alice'' ?p) Map.empty reset 5 (stored ''running'' 1))
             = Inr (context_of ?p ''C1'' ''W1'')"
    by (simp add: sample_defs handler_defs)
  have fr: "fresh_ids (stored ''running'' 1)"
    by (rule fresh_ids_samples)
  have x: "Local_executeTool (cx_exai (context_of ?p ''C1'' ''W1'')) answering
             (cx_tool (context_of ?p ''C1'' ''W1'')) (cx_params (context_of ?p ''C1'' ''W1''))
             = Inr root_cause"
    by (simp add: sample_defs handler_defs)
  from workflow_keeps_request_continuation [OF b fr x] fr show ?thesis
    by (simp add: context_of_sel submission_sel or_null_def root_cause_def)
qed

text \<open>The same request, run: the stored continuation id is the client's, not the one the backend returned.\<close>

theorem backend_continuation_not_stored:
  "http_status (fst (POST (request_by ''alice''
                            ((submission 2 True (Some ''C1'') (Some ''W1''))
                               \<lparr> continuation_id := Some ''from-client'' \<rparr>))
                       Map.empty reset answering 5 (stored ''running'' 1))) = 200
   \<and> map_option wf_continuationId
        (Local_getWorkflow ''W1''
           (snd (POST (request_by ''alice''
                        ((submission 2 True (Some ''C1'') (Some ''W1''))
                           \<lparr> continuation_id := Some ''from-client'' \<rparr>))
                   Map.empty reset answering 5 (stored ''running'' 1))))
       = Some (Some ''from-client'')
   \<and> er_continuation_id root_cause = Some ''from-backend''"
  by (simp add: sample_defs handler_defs)

text \<open>
  Claim C3, as amended. When the adapter call of a step submission fails, the caller
  receives status 500 with the error's message and no mark that the failure may be
  retried, and the database stays as it was when the adapter was called, so the step
  record written before the call, with status \<^verbatim>\<open>running\<close>, is the last one stored.
  The workflow's status is then the one written before the call: \<^verbatim>\<open>running\<close> when the
  request created the workflow or asked for a next step, and \<^verbatim>\<open>completed\<close> when the
  request brought the final step of a workflow it was given.
\<close>

theorem adapter_failure_keeps_running:
  assumes "fst (before_call rq e f now s) = Inr cx"
      and "Local_executeTool (cx_exai cx) fetch (cx_tool cx) (cx_params cx) = Inl err"
  shows "POST rq e f fetch now s
           = (\<lparr> http_status = 500,
                http_body = ErrorBody (if instanceof_Error err then error_message err
                                       else ''Internal server error'') \<rparr>,
              snd (before_call rq e f now s))
       \<and> (\<exists>r. workflowSteps (snd (POST rq e f fetch now s)) = workflowSteps s @ [r]
              \<and> ws_workflowId r = cx_workflowId cx
              \<and> ws_stepNumber r = step_number (cx_params cx)
              \<and> ws_status r = ''running'')
       \<and> (fresh_ids s \<longrightarrow>
            (\<exists>w. Local_getWorkflow (cx_workflowId cx) (snd (POST rq e f fetch now s)) = Some w
                \<and> wf_status w
                    = (if falsy (workflowId (cx_params cx)) \<or> next_step_required (cx_params cx)
                       then ''running'' else ''completed'')))"
proof -
  have p: "POST rq e f fetch now s = (POST_catch err, snd (before_call rq e f now s))"
    using assms(1,2) by (rule POST_failure)
  have "\<not> instanceof_ZodError err"
    using assms(2) by (rule Local_executeTool_Inl)
  then have c: "POST_catch err
                  = \<lparr> http_status = 500,
                      http_body = ErrorBody (if instanceof_Error err then error_message err
                                             else ''Internal server error'') \<rparr>"
    by (simp add: POST_catch_def)
  have w: "\<exists>w. Local_getWorkflow (cx_workflowId cx) (snd (before_call rq e f now s)) = Some w
              \<and> wf_status w
                  = (if falsy (workflowId (cx_params cx)) \<or> next_step_required (cx_params cx)
                     then ''running'' else ''completed'')"
    if "fresh_ids s"
    using before_call_step_applied [OF assms(1) that]
    by (auto simp: step_applied_def)
  from before_call_running_step [OF assms(1)]
  have r: "\<exists>r. workflowSteps (snd (before_call rq e f now s)) = workflowSteps s @ [r]
              \<and> ws_workflowId r = cx_workflowId cx
              \<and> ws_stepNumber r = step_number (cx_params cx)
              \<and> ws_status r = ''running''"
    by blast
  from p c w r show ?thesis by simp
qed

text \<open>
  Scenario B and Scenario C against a daemon whose calls time out: the second step of
  three leaves the workflow \<^verbatim>\<open>running\<close>, the third and last leaves it \<^verbatim>\<open>completed\<close>.
\<close>

theorem adapter_failure_keeps_running_witness:
  "fresh_ids (stored ''running'' 1)
   \<and> Local_executeTool default_adapter timing_out ''debug''
        (submission 2 True (Some ''C1'') (Some ''W1''))
       = Inl (ErrorObj ''Error'' ''EXAI request timeout'')
   \<and> fst (POST (request_by ''alice'' (submission 2 True (Some ''C1'') (Some ''W1'')))
            Map.empty reset timing_out 5 (stored ''running'' 1))
       = \<lparr> http_status = 500, http_body = ErrorBody ''EXAI request timeout'' \<rparr>
   \<and> (\<exists>w. Local_getWorkflow ''W1''
             (snd (POST (request_by ''alice'' (submission 2 True (Some ''C1'') (Some ''W1'')))
                     Map.empty reset timing_out 5 (stored ''running'' 1))) = Some w
          \<and> wf_status w = ''running'')
   \<and> (\<exists>r. workflowSteps
             (snd (POST (request_by ''alice'' (submission 2 True (Some ''C1'') (Some ''W1'')))
                     Map.empty reset timing_out 5 (stored ''running'' 1))) = [r]
          \<and> ws_workflowId r = ''W1'' \<and> ws_stepNumber r = 2 \<and> ws_status r = ''running'')
   \<and> fresh_ids (stored ''running'' 2)
   \<and> fst (POST (request_by ''alice'' (submission 3 False (Some ''C1'') (Some ''W1'')))
            Map.empty reset timing_out 5 (stored ''running'' 2))
       = \<lparr> http_status = 500, http_body = ErrorBody ''EXAI request timeout'' \<rparr>
   \<and> (\<exists>w. Local_getWorkflow ''W1''
             (snd (POST (request_by ''alice'' (submission 3 False (Some ''C1'') (Some ''W1'')))
                     Map.empty reset timing_out 5 (stored ''running'' 2))) = Some w
          \<and> wf_status w = ''completed'')
   \<and> (\<exists>r. workflowSteps
             (snd (POST (request_by ''alice'' (submission 3 False (Some ''C1'') (Some ''W1'')))
                     Map.empty reset timing_out 5 (stored ''running'' 2))) = [r]
          \<and> ws_workflowId r = ''W1'' \<and> ws_stepNumber r = 3 \<and> ws_status r = ''running'')"
proof -
  let ?p = "submission 2 True (Some ''C1'') (Some ''W1'')"
  let ?q = "submission 3 False (Some ''C1'') (Some ''W1'')"
  have b: "fst (before_call (request_by ''alice'' ?p) Map.empty reset 5 (stored ''running'' 1))
             = Inr (context_of ?p ''C1'' ''W1'')"
    by (simp add: sample_defs handler_defs)
  have b': "fst (before_call (request_by ''alice'' ?q) Map.empty reset 5 (stored ''running'' 2))
             = Inr (context_of ?q ''C1'' ''W1'')"
    by (simp add: sample_defs handler_defs)
  have fr: "fresh_ids (stored ''running'' 1)" and fr': "fresh_ids (stored ''running'' 2)"
    by (rule fresh_ids_samples)+
  have x: "Local_executeTool (cx_exai (context_of ?p ''C1'' ''W1'')) timing_out
             (cx_tool (context_of ?p ''C1'' ''W1'')) (cx_params (context_of ?p ''C1'' ''W1''))
             = Inl (ErrorObj ''Error'' ''EXAI request timeout'')"
    by (simp add: sample_defs handler_defs)
  have x': "Local_executeTool (cx_exai (context_of ?q ''C1'' ''W1'')) timing_out
             (cx_tool (context_of ?q ''C1'' ''W1'')) (cx_params (context_of ?q ''C1'' ''W1''))
             = Inl (ErrorObj ''Error'' ''EXAI request timeout'')"
    by (simp add: sample_defs handler_defs)
  note t = adapter_failure_keeps_running [OF b x]
  note t' = adapter_failure_keeps_running [OF b' x']
  from t [THEN conjunct1]
  have "fst (POST (request_by ''alice'' ?p) Map.empty reset timing_out 5 (stored ''running'' 1))
          = \<lparr> http_status = 500, http_body = ErrorBody ''EXAI request timeout'' \<rparr>"
    by simp
  moreover from t [THEN conjunct2, THEN conjunct2, rule_format, OF fr]
  have "\<exists>w. Local_getWorkflow ''W1''
             (snd (POST (request_by ''alice'' ?p) Map.empty reset timing_out 5 (stored ''running'' 1)))
               = Some w \<and> wf_status w = ''running''"
    by (simp add: context_of_sel submission_sel)
  moreover from t [THEN conjunct2, THEN conjunct1]
  have "\<exists>r. workflowSteps
             (snd (POST (request_by ''alice'' ?p) Map.empty reset timing_out 5 (stored ''running'' 1)))
               = [r] \<and> ws_workflowId r = ''W1'' \<and> ws_stepNumber r = 2 \<and> ws_status r = ''running''"
    by (simp add: context_of_sel submission_sel stored_sel)
  moreover from x
  have "Local_executeTool default_adapter timing_out ''debug'' ?p
          = Inl (ErrorObj ''Error'' ''EXAI request timeout'')"
    by (simp add: context_of_sel)
  moreover from t' [THEN conjunct1]
  have "fst (POST (request_by ''alice'' ?q) Map.empty reset timing_out 5 (stored ''running'' 2))
          = \<lparr> http_status = 500, http_body = ErrorBody ''EXAI request timeout'' \<rparr>"
    by simp
  moreover from t' [THEN conjunct2, THEN conjunct2, rule_format, OF fr']
  have "\<exists>w. Local_getWorkflow ''W1''
             (snd (POST (request_by ''alice'' ?q) Map.empty reset timing_out 5 (stored ''running'' 2)))
               = Some w \<and> wf_status w = ''completed''"
    by (simp add: context_of_sel submission_sel falsy_def)
  moreover from t' [THEN conjunct2, THEN conjunct1]
  have "\<exists>r. workflowSteps
             (snd (POST (request_by ''alice'' ?q) Map.empty reset timing_out 5 (stored ''running'' 2)))
               = [r] \<and> ws_workflowId r = ''W1'' \<and> ws_stepNumber r = 3 \<and> ws_status r = ''running''"
    by (simp add: context_of_sel submission_sel stored_sel)
  ultimately show ?thesis using fr fr' by blast
qed

text \<open>Scenario C against the same daemon: the update made before the call has already written \<^verbatim>\<open>completed\<close>, and no result follows.\<close>

theorem failed_final_step_left_completed:
  "fst (POST (request_by ''alice'' (submission 3 False (Some ''C1'') (Some ''W1'')))
          Map.empty reset timing_out 5 (stored ''running'' 2))
     = \<lparr> http_status = 500, http_body = ErrorBody ''EXAI request timeout'' \<rparr>
   \<and> map_option wf_status
        (Local_getWorkflow ''W1''
           (snd (POST (request_by ''alice'' (submission 3 False (Some ''C1'') (Some ''W1'')))
                   Map.empty reset timing_out 5 (stored ''running'' 2))))
       = Some ''completed''
   \<and> map_option wf_result
        (Local_getWorkflow ''W1''
           (snd (POST (request_by ''alice'' (submission 3 False (Some ''C1'') (Some ''W1'')))
                   Map.empty reset timing_out 5 (stored ''running'' 2))))
       = Some None"
  by (simp add: sample_defs handler_defs)

text \<open>
  Claim C6. A step submission never changes or removes a stored step record: whatever
  the outcome, the step records stored before the request are still there afterwards,
  unchanged and in place, followed by the records the request added. When the adapter
  call is reached and succeeds, it adds exactly two records for the submitted step of
  the workflow: the one written before the call, with status \<^verbatim>\<open>running\<close>, and a new
  one written after it, with status \<^verbatim>\<open>completed\<close> and the adapter's response in its
  metadata.
\<close>

theorem step_records_only_appended:
  "(\<exists>new. workflowSteps (snd (POST rq e f fetch now s)) = workflowSteps s @ new)
   \<and> (\<forall>cx response.
         fst (before_call rq e f now s) = Inr cx
         \<longrightarrow> Local_executeTool (cx_exai cx) fetch (cx_tool cx) (cx_params cx) = Inr response
         \<longrightarrow> (\<exists>r1 r2. workflowSteps (snd (POST rq e f fetch now s)) = workflowSteps s @ [r1, r2]
                \<and> ws_workflowId r1 = cx_workflowId cx \<and> ws_workflowId r2 = cx_workflowId cx
                \<and> ws_stepNumber r1 = step_number (cx_params cx)
                \<and> ws_stepNumber r2 = step_number (cx_params cx)
                \<and> ws_status r1 = ''running'' \<and> ws_status r2 = ''completed''
                \<and> md_response (ws_metadata r1) = None
                \<and> md_response (ws_metadata r2) = Some response))"
  using POST_steps POST_two_records by blast

text \<open>Scenario A.\<close>

theorem step_records_only_appended_witness:
  "fst (before_call (request_by ''alice'' (submission 1 True None None)) Map.empty reset 5 no_rows)
     = Inr (context_of (submission 1 True None None) ''c0'' ''c1'')
   \<and> Local_executeTool default_adapter answering ''debug'' (submission 1 True None None)
     = Inr root_cause
   \<and> (\<exists>r1 r2. workflowSteps
                 (snd (POST (request_by ''alice'' (submission 1 True None None))
                         Map.empty reset answering 5 no_rows)) = [r1, r2]
          \<and> ws_workflowId r1 = ''c1'' \<and> ws_workflowId r2 = ''c1''
          \<and> ws_stepNumber r1 = 1 \<and> ws_stepNumber r2 = 1
          \<and> ws_status r1 = ''running'' \<and> ws_status r2 = ''completed''
          \<and> md_response (ws_metadata r1) = None
          \<and> md_response (ws_metadata r2) = Some root_cause)"
proof -
  let ?p = "submission 1 True None None"
  let ?cx = "context_of ?p ''c0'' ''c1''"
  have b: "fst (before_call (request_by ''alice'' ?p) Map.empty reset 5 no_rows) = Inr ?cx"
    by (simp add: sample_defs handler_defs)
  have x: "Local_executeTool (cx_exai ?cx) answering (cx_tool ?cx) (cx_params ?cx) = Inr root_cause"
    by (simp add: sample_defs handler_defs)
  note t = step_records_only_appended
             [of "request_by ''alice'' ?p" Map.empty reset answering 5 no_rows,
              THEN conjunct2, rule_format, OF b x]
  from t have "\<exists>r1 r2. workflowSteps
                 (snd (POST (request_by ''alice'' ?p) Map.empty reset answering 5 no_rows)) = [r1, r2]
          \<and> ws_workflowId r1 = ''c1'' \<and> ws_workflowId r2 = ''c1''
          \<and> ws_stepNumber r1 = 1 \<and> ws_stepNumber r2 = 1
          \<and> ws_status r1 = ''running'' \<and> ws_status r2 = ''completed''
          \<and> md_response (ws_metadata r1) = None
          \<and> md_response (ws_metadata r2) = Some root_cause"
    by (simp add: context_of_sel submission_sel stored_sel)
  moreover from x
  have "Local_executeTool default_adapter answering ''debug'' ?p = Inr root_cause"
    by (simp add: context_of_sel)
  ultimately show ?thesis using b by blast
qed

text \<open>
  Claim C1, as amended. A step submission that names a stored workflow is not rejected
  on account of the workflow's status, and no response of the route has status 409.
  Once the tool name, the session, the body and the adapter mode are accepted, a
  workflow that was \<^verbatim>\<open>completed\<close> or \<^verbatim>\<open>failed\<close> is treated like any other. When the
  submitted step number and total fit the 32-bit integer columns, the workflow is
  overwritten: after the request its current step and total are the submitted ones, its
  continuation id is the request's, and its status is \<^verbatim>\<open>running\<close> when a next step is
  required and \<^verbatim>\<open>completed\<close> otherwise. When one of them does not fit, the update throws,
  the answer is 500 and the workflow is as it was.
\<close>

theorem terminal_workflow_is_overwritten:
  assumes "rq_tool rq \<in> set VALID_TOOLS" and "rq_session rq = Some uid"
      and "read_body (rq_body rq) = Inr p" and "getMode e = ModeLocal"
      and "workflowId p = Some wid" and "wid \<noteq> []"
      and "Local_getWorkflow wid s = Some w0"
      and "wf_status w0 = ''completed'' \<or> wf_status w0 = ''failed''"
  shows "http_status (fst (POST rq e f fetch now s)) \<noteq> 409
       \<and> (fits_int32 (step_number p) \<and> fits_int32 (total_steps p) \<longrightarrow>
            (\<exists>w. Local_getWorkflow wid (snd (POST rq e f fetch now s)) = Some w
                \<and> wf_currentStep w = step_number p \<and> wf_totalSteps w = total_steps p
                \<and> wf_continuationId w = or_null (continuation_id p)
                \<and> wf_status w = (if next_step_required p then ''running'' else ''completed'')))
       \<and> (\<not> (fits_int32 (step_number p) \<and> fits_int32 (total_steps p)) \<longrightarrow>
            http_status (fst (POST rq e f fetch now s)) = 500
            \<and> Local_getWorkflow wid (snd (POST rq e f fetch now s)) = Some w0)"
proof -
  have "http_status (fst (POST rq e f fetch now s)) \<in> {200, 400, 401, 500}"
    by (rule POST_status)
  then have a: "http_status (fst (POST rq e f fetch now s)) \<noteq> 409" by auto
  have b: "\<exists>w. Local_getWorkflow wid (snd (POST rq e f fetch now s)) = Some w
                \<and> wf_currentStep w = step_number p \<and> wf_totalSteps w = total_steps p
                \<and> wf_continuationId w = or_null (continuation_id p)
                \<and> wf_status w = (if next_step_required p then ''running'' else ''completed'')"
    if "fits_int32 (step_number p) \<and> fits_int32 (total_steps p)"
    using POST_overwrites_given_workflow
            [OF assms(1-7) that [THEN conjunct1] that [THEN conjunct2], of f fetch now] .
  have c: "http_status (fst (POST rq e f fetch now s)) = 500
           \<and> Local_getWorkflow wid (snd (POST rq e f fetch now s)) = Some w0"
    if "\<not> (fits_int32 (step_number p) \<and> fits_int32 (total_steps p))"
    using POST_out_of_range [OF assms(1-7) that, of f fetch now] by simp
  from a b c show ?thesis by blast
qed

text \<open>
  A further step for a workflow that has failed, and the same with the step number
  \<open>2147483648\<close>, one more than the column holds.
\<close>

theorem terminal_workflow_is_overwritten_witness:
  "Local_getWorkflow ''W1'' (stored ''failed'' 3) \<noteq> None
   \<and> map_option wf_status (Local_getWorkflow ''W1'' (stored ''failed'' 3)) = Some ''failed''
   \<and> http_status (fst (POST (request_by ''alice'' (submission 4 True (Some ''C1'') (Some ''W1'')))
                          Map.empty reset answering 5 (stored ''failed'' 3))) \<noteq> 409
   \<and> (\<exists>w. Local_getWorkflow ''W1''
             (snd (POST (request_by ''alice'' (submission 4 True (Some ''C1'') (Some ''W1'')))
                     Map.empty reset answering 5 (stored ''failed'' 3))) = Some w
          \<and> wf_currentStep w = 4 \<and> wf_totalSteps w = 3 \<and> wf_continuationId w = None
          \<and> wf_status w = ''running'')
   \<and> http_status
        (fst (POST (request_by ''alice'' (submission 2147483648 True (Some ''C1'') (Some ''W1'')))
                Map.empty reset answering 5 (stored ''failed'' 3))) = 500
   \<and> Local_getWorkflow ''W1''
        (snd (POST (request_by ''alice'' (submission 2147483648 True (Some ''C1'') (Some ''W1'')))
                Map.empty reset answering 5 (stored ''failed'' 3)))
       = Local_getWorkflow ''W1'' (stored ''failed'' 3)"
proof -
  let ?p = "submission 4 True (Some ''C1'') (Some ''W1'')"
  let ?q = "submission 2147483648 True (Some ''C1'') (Some ''W1'')"
  let ?w0 = "\<lparr> wf_id = ''W1'', wf_conversationId = ''C1'', wf_toolType = ''debug'',
               wf_status = ''failed'', wf_currentStep = 3, wf_totalSteps = 3,
               wf_continuationId = None, wf_result = None, wf_createdAt = 1,
               wf_updatedAt = 4 \<rparr>"
  have h1: "rq_tool (request_by ''alice'' b) \<in> set VALID_TOOLS" for b
    by (simp add: request_by_def VALID_TOOLS_def)
  have h2: "rq_session (request_by ''alice'' b) = Some ''alice''" for b
    by (simp add: request_by_def)
  have h3: "read_body (rq_body (request_by ''alice'' ?p)) = Inr ?p"
    by (simp add: request_by_def submission_def read_body_def toolSchema_parse_def zod_issues_def)
  have h3': "read_body (rq_body (request_by ''alice'' ?q)) = Inr ?q"
    by (simp add: request_by_def submission_def read_body_def toolSchema_parse_def zod_issues_def)
  have h4: "getMode Map.empty = ModeLocal"
    by (simp add: getMode_def)
  have h5: "workflowId ?p = Some ''W1''" and h5': "workflowId ?q = Some ''W1''"
    by (simp_all add: submission_sel)
  have h6: "''W1'' \<noteq> []" by simp
  have h7: "Local_getWorkflow ''W1'' (stored ''failed'' 3) = Some ?w0"
    by (simp add: Local_getWorkflow_def stored_def)
  have h8: "wf_status ?w0 = ''completed'' \<or> wf_status ?w0 = ''failed''" by simp
  have h9: "fits_int32 (step_number ?p) \<and> fits_int32 (total_steps ?p)"
    by (simp add: submission_sel fits_int32_def)
  have h9': "\<not> (fits_int32 (step_number ?q) \<and> fits_int32 (total_steps ?q))"
    by (simp add: submission_sel fits_int32_def)
  note t = terminal_workflow_is_overwritten [OF h1 h2 h3 h4 h5 h6 h7 h8, of reset answering 5]
  note t' = terminal_workflow_is_overwritten [OF h1 h2 h3' h4 h5' h6 h7 h8, of reset answering 5]
  from t [THEN conjunct1] t [THEN conjunct2, THEN conjunct1, rule_format, OF h9]
       t' [THEN conjunct2, THEN conjunct2, rule_format, OF h9'] h7
  show ?thesis
    by (simp add: submission_sel or_null_def)
qed

text \<open>Scenario D: a fourth step for the workflow that scenario C completed is answered with 200 and puts the workflow back to \<^verbatim>\<open>running\<close>.\<close>

theorem completed_workflow_accepts_step:
  "map_option wf_status (Local_getWorkflow ''W1'' (stored ''completed'' 3)) = Some ''completed''
   \<and> http_status (fst (POST (request_by ''alice'' (submission 4 True (Some ''C1'') (Some ''W1'')))
                          Map.empty reset answering 5 (stored ''completed'' 3))) = 200
   \<and> map_option wf_status
        (Local_getWorkflow ''W1''
           (snd (POST (request_by ''alice'' (submission 4 True (Some ''C1'') (Some ''W1'')))
                   Map.empty reset answering 5 (stored ''completed'' 3))))
       = Some ''running''
   \<and> map_option wf_currentStep
        (Local_getWorkflow ''W1''
           (snd (POST (request_by ''alice'' (submission 4 True (Some ''C1'') (Some ''W1'')))
                   Map.empty reset answering 5 (stored ''completed'' 3))))
       = Some 4"
  by (simp add: sample_defs handler_defs)

text \<open>
  Claim C2, at the inputs where the handler departs from it. Mallory submits a step
  into Alice's conversation \<^verbatim>\<open>C1\<close>: the answer is 200, not 403, and a workflow of hers is
  stored under that conversation. Alice submits a step for her workflow \<^verbatim>\<open>W1\<close> naming a
  conversation that does not exist: the answer is 500, not 404, and by then the workflow
  has been updated and two step records have been written.
\<close>

theorem conversation_owner_not_checked:
  "map_option cv_userId (Local_getConversation ''C1'' (stored ''running'' 1)) = Some ''alice''
   \<and> http_status (fst (POST (request_by ''mallory'' (submission 1 True (Some ''C1'') None))
                          Map.empty reset answering 5 (stored ''running'' 1))) = 200
   \<and> map_option wf_conversationId
        (Local_getWorkflow ''c0''
           (snd (POST (request_by ''mallory'' (submission 1 True (Some ''C1'') None))
                   Map.empty reset answering 5 (stored ''running'' 1))))
       = Some ''C1''
   \<and> Local_getConversation ''nowhere'' (stored ''running'' 1) = None
   \<and> fst (POST (request_by ''alice'' (submission 2 True (Some ''nowhere'') (Some ''W1'')))
            Map.empty reset answering 5 (stored ''running'' 1))
       = \<lparr> http_status = 500, http_body = ErrorBody ''P2025'' \<rparr>
   \<and> map_option wf_currentStep
        (Local_getWorkflow ''W1''
           (snd (POST (request_by ''alice'' (submission 2 True (Some ''nowhere'') (Some ''W1'')))
                   Map.empty reset answering 5 (stored ''running'' 1))))
       = Some 2
   \<and> length (workflowSteps
        (snd (POST (request_by ''alice'' (submission 2 True (Some ''nowhere'') (Some ''W1'')))
                Map.empty reset answering 5 (stored ''running'' 1)))) = 2"
  by (simp add: sample_defs handler_defs Local_getConversation_def)

text \<open>
  Claim C9, as amended. Two step submissions for the same stored workflow, with step
  numbers and totals that fit their columns, are in flight together, each making its
  database and adapter calls one by one while the other may make any of its own in
  between. Nothing serializes them. Once both have returned, each has made its update
  of the workflow, and the workflow's current step is the step number of the request
  that made this update last, whether or not the other request's step number is higher.
\<close>

theorem current_step_is_last_writers:
  assumes "submits_to (rqs First) (ps First) wid"
      and "submits_to (rqs Second) (ps Second) wid"
      and "getMode e = ModeLocal"
      and "currentStep_of wid s \<noteq> None"
      and "progress_of (run rqs e f fetch sch (start s)) First = Finished ra"
      and "progress_of (run rqs e f fetch sch (start s)) Second = Finished rb"
  shows "First \<in> set (workflow_turns (\<lambda>x. 0) sch)
       \<and> Second \<in> set (workflow_turns (\<lambda>x. 0) sch)
       \<and> currentStep_of wid (db (run rqs e f fetch sch (start s)))
           = Some (step_number (ps (last (workflow_turns (\<lambda>x. 0) sch))))"
  using run_from_start [OF assms] by simp

text \<open>
  Steps 3 and 2 for \<^verbatim>\<open>W1\<close> in flight together. The request for step 2 starts first and
  has written its \<^verbatim>\<open>running\<close> record when the request for step 3 updates the
  workflow; from there they alternate.
\<close>

theorem current_step_is_last_writers_witness:
  "progress_of (run racing Map.empty reset answering
                  [(Second, 5), (Second, 6), (Second, 7), (First, 8), (First, 9), (Second, 10),
                   (First, 11), (Second, 12), (First, 13), (Second, 14), (First, 15),
                   (Second, 16), (First, 17), (Second, 18), (First, 19), (First, 20)]
                  (start (stored ''running'' 1))) First = Finished accepted
   \<and> progress_of (run racing Map.empty reset answering
                  [(Second, 5), (Second, 6), (Second, 7), (First, 8), (First, 9), (Second, 10),
                   (First, 11), (Second, 12), (First, 13), (Second, 14), (First, 15),
                   (Second, 16), (First, 17), (Second, 18), (First, 19), (First, 20)]
                  (start (stored ''running'' 1))) Second = Finished accepted
   \<and> workflow_turns (\<lambda>x. 0)
        [(Second, 5), (Second, 6), (Second, 7), (First, 8), (First, 9), (Second, 10),
         (First, 11), (Second, 12), (First, 13), (Second, 14), (First, 15),
         (Second, 16), (First, 17), (Second, 18), (First, 19), (First, 20)] = [Second, First]
   \<and> currentStep_of ''W1''
        (db (run racing Map.empty reset answering
               [(Second, 5), (Second, 6), (Second, 7), (First, 8), (First, 9), (Second, 10),
                (First, 11), (Second, 12), (First, 13), (Second, 14), (First, 15),
                (Second, 16), (First, 17), (Second, 18), (First, 19), (First, 20)]
               (start (stored ''running'' 1)))) = Some 3"
proof -
  let ?sch = "[(Second, 5), (Second, 6), (Second, 7), (First, 8), (First, 9), (Second, 10),
               (First, 11), (Second, 12), (First, 13), (Second, 14), (First, 15),
               (Second, 16), (First, 17), (Second, 18), (First, 19), (First, 20::time)]"
  have a: "submits_to (racing First) (racing_params First) ''W1''"
    and b: "submits_to (racing Second) (racing_params Second) ''W1''"
    by (simp_all add: submits_to_def racing_def racing_params_def request_by_def submission_def
          VALID_TOOLS_def read_body_def toolSchema_parse_def zod_issues_def fits_int32_def)
  have m: "getMode Map.empty = ModeLocal"
    by (simp add: getMode_def)
  have c: "currentStep_of ''W1'' (stored ''running'' 1) \<noteq> None"
    by (simp add: currentStep_of_def Local_getWorkflow_def stored_def)
  have fa: "progress_of (run racing Map.empty reset answering ?sch (start (stored ''running'' 1)))
              First = Finished accepted"
    by (simp add: flight_defs sample_defs handler_defs)
  have fb: "progress_of (run racing Map.empty reset answering ?sch (start (stored ''running'' 1)))
              Second = Finished accepted"
    by (simp add: flight_defs sample_defs handler_defs)
  have wt: "workflow_turns (\<lambda>x. 0) ?sch = [Second, First]"
    by simp
  from current_step_is_last_writers [OF a b m c fa fb, THEN conjunct2, THEN conjunct2] fa fb wt
  show ?thesis
    by (simp add: racing_params_def submission_sel)
qed

text \<open>
  The same two requests with the request for step 3 making its update first, turn by
  turn in alternation and one after the other: both are answered with 200, and the
  workflow ends at step 2.
\<close>

theorem overlapping_steps_regress:
  "progress_of (run racing Map.empty reset answering
                  [(First, 5), (Second, 6), (First, 7), (Second, 8), (First, 9), (Second, 10),
                   (First, 11), (Second, 12), (First, 13), (Second, 14), (First, 15),
                   (Second, 16), (First, 17), (Second, 18), (First, 19), (Second, 20)]
                  (start (stored ''running'' 1))) First = Finished accepted
   \<and> progress_of (run racing Map.empty reset answering
                  [(First, 5), (Second, 6), (First, 7), (Second, 8), (First, 9), (Second, 10),
                   (First, 11), (Second, 12), (First, 13), (Second, 14), (First, 15),
                   (Second, 16), (First, 17), (Second, 18), (First, 19), (Second, 20)]
                  (start (stored ''running'' 1))) Second = Finished accepted
   \<and> step_number (racing_params First) = 3 \<and> step_number (racing_params Second) = 2
   \<and> currentStep_of ''W1''
        (db (run racing Map.empty reset answering
               [(First, 5), (Second, 6), (First, 7), (Second, 8), (First, 9), (Second, 10),
                (First, 11), (Second, 12), (First, 13), (Second, 14), (First, 15),
                (Second, 16), (First, 17), (Second, 18), (First, 19), (Second, 20)]
               (start (stored ''running'' 1)))) = Some 2
   \<and> fst (POST (racing First) Map.empty reset answering 5 (stored ''running'' 1)) = accepted
   \<and> fst (POST (racing Second) Map.empty reset answering 6
            (snd (POST (racing First) Map.empty reset answering 5 (stored ''running'' 1))))
       = accepted
   \<and> currentStep_of ''W1''
        (snd (POST (racing Second) Map.empty reset answering 6
                (snd (POST (racing First) Map.empty reset answering 5 (stored ''running'' 1)))))
       = Some 2"
  by (simp add: flight_defs racing_params_def currentStep_of_def sample_defs handler_defs)

text \<open>
  Claim C8, as amended. A request exceeds the configured timeout when the timer that
  \<^verbatim>\<open>makeRequest\<close> or \<^verbatim>\<open>streamResponse\<close> sets to \<^verbatim>\<open>timeout\<close> milliseconds fires before the
  \<^verbatim>\<open>fetch\<close> has settled. Then both adapters throw a plain \<^verbatim>\<open>Error\<close>: with the message
  \<^verbatim>\<open>EXAI request timeout\<close> from \<^verbatim>\<open>makeRequest\<close>, which stands behind \<^verbatim>\<open>executeTool\<close>,
  \<^verbatim>\<open>executeChat\<close> and the method of every tool, and with the message
  \<^verbatim>\<open>EXAI stream timeout\<close> from \<^verbatim>\<open>streamResponse\<close>, before any chunk is yielded. There
  is no \<^verbatim>\<open>AdapterTimeoutError\<close>. Every \<^verbatim>\<open>Error\<close> these methods throw has the name
  \<^verbatim>\<open>Error\<close>, and one that is not a timeout has a message that starts with
  \<^verbatim>\<open>EXAI request failed: \<close> or \<^verbatim>\<open>EXAI stream failed: \<close>, so only the text of the message
  tells a timeout from another failure.
\<close>

theorem timeout_is_a_plain_error:
  "(timer_delay (timeout a) \<le> fst (fetch (daemonUrl a @ endpoint) params)
      \<longrightarrow> Local_makeRequest a fetch endpoint params
            = Inl (ErrorObj ''Error'' ''EXAI request timeout''))
   \<and> (timer_delay (sb_timeout b) \<le> fst (fetch (exaiUrl b @ endpoint) params)
      \<longrightarrow> Supabase_makeRequest b fetch endpoint params
            = Inl (ErrorObj ''Error'' ''EXAI request timeout''))
   \<and> (timer_delay (timeout a) \<le> fst (fetch (daemonUrl a @ ''/'' @ tool @ ''/stream'') params)
      \<longrightarrow> Local_streamResponse a parse fetch tool params
            = ([], Some (ErrorObj ''Error'' ''EXAI stream timeout'')))
   \<and> (timer_delay (sb_timeout b) \<le> fst (fetch (exaiUrl b @ ''/'' @ tool @ ''/stream'') params)
      \<longrightarrow> Supabase_streamResponse b parse fetch tool params
            = ([], Some (ErrorObj ''Error'' ''EXAI stream timeout'')))
   \<and> (\<forall>t. (Local_makeRequest a fetch endpoint params = Inl t
            \<or> Supabase_makeRequest b fetch endpoint params = Inl t)
           \<longrightarrow> instanceof_Error t
           \<longrightarrow> error_name t = ''Error''
               \<and> (error_message t = ''EXAI request timeout''
                  \<or> (\<exists>m. error_message t = ''EXAI request failed: '' @ m)))
   \<and> (\<forall>t. (snd (Local_streamResponse a parse fetch tool params) = Some t
            \<or> snd (Supabase_streamResponse b parse fetch tool params) = Some t)
           \<longrightarrow> instanceof_Error t
           \<longrightarrow> error_name t = ''Error''
               \<and> (error_message t = ''EXAI stream timeout''
                  \<or> (\<exists>m. error_message t = ''EXAI stream failed: '' @ m)))"
proof (intro conjI allI impI)
  assume "timer_delay (timeout a) \<le> fst (fetch (daemonUrl a @ endpoint) params)"
  then show "Local_makeRequest a fetch endpoint params
               = Inl (ErrorObj ''Error'' ''EXAI request timeout'')"
    by (rule Local_makeRequest_timeout)
next
  assume "timer_delay (sb_timeout b) \<le> fst (fetch (exaiUrl b @ endpoint) params)"
  then show "Supabase_makeRequest b fetch endpoint params
               = Inl (ErrorObj ''Error'' ''EXAI request timeout'')"
    by (rule Supabase_makeRequest_timeout)
next
  assume "timer_delay (timeout a) \<le> fst (fetch (daemonUrl a @ ''/'' @ tool @ ''/stream'') params)"
  then show "Local_streamResponse a parse fetch tool params
               = ([], Some (ErrorObj ''Error'' ''EXAI stream timeout''))"
    by (rule Local_streamResponse_timeout)
next
  assume "timer_delay (sb_timeout b) \<le> fst (fetch (exaiUrl b @ ''/'' @ tool @ ''/stream'') params)"
  then show "Supabase_streamResponse b parse fetch tool params
               = ([], Some (ErrorObj ''Error'' ''EXAI stream timeout''))"
    by (rule Supabase_streamResponse_timeout)
next
  fix t
  assume t: "Local_makeRequest a fetch endpoint params = Inl t
             \<or> Supabase_makeRequest b fetch endpoint params = Inl t"
     and e: "instanceof_Error t"
  from t Local_makeRequest_Inl [of a fetch endpoint params t]
    Supabase_makeRequest_Inl [of b fetch endpoint params t]
  have r: "t \<in> range Local_makeRequest_catch" by blast
  from r e show "error_name t = ''Error''"
    by (rule makeRequest_catch_shape(1))
  from r e show "error_message t = ''EXAI request timeout''
        \<or> (\<exists>m. error_message t = ''EXAI request failed: '' @ m)"
    by (rule makeRequest_catch_shape(2))
next
  fix t
  assume t: "snd (Local_streamResponse a parse fetch tool params) = Some t
             \<or> snd (Supabase_streamResponse b parse fetch tool params) = Some t"
     and e: "instanceof_Error t"
  from t have r: "t \<in> range Local_streamResponse_catch"
    by (rule streamResponse_throws)
  from r e show "error_name t = ''Error''"
    by (rule streamResponse_catch_shape(1))
  from r e show "error_message t = ''EXAI stream timeout''
        \<or> (\<exists>m. error_message t = ''EXAI stream failed: '' @ m)"
    by (rule streamResponse_catch_shape(2))
qed

text \<open>
  A daemon that needs ten minutes against the timeout of five, and a daemon that is
  down, through both methods of either adapter.
\<close>

theorem timeout_is_a_plain_error_witness:
  "timer_delay (timeout default_adapter) = 300000
   \<and> fst (timing_out (daemonUrl default_adapter @ ''/debug'') (submission 1 True None None))
       = 600000
   \<and> Local_makeRequest default_adapter timing_out ''/debug'' (submission 1 True None None)
       = Inl (ErrorObj ''Error'' ''EXAI request timeout'')
   \<and> Supabase_makeRequest remote_adapter timing_out ''/debug'' (submission 1 True None None)
       = Inl (ErrorObj ''Error'' ''EXAI request timeout'')
   \<and> Local_streamResponse default_adapter json_lines timing_out ''debug''
        (submission 1 True None None)
       = ([], Some (ErrorObj ''Error'' ''EXAI stream timeout''))
   \<and> Supabase_streamResponse remote_adapter json_lines timing_out ''debug''
        (submission 1 True None None)
       = ([], Some (ErrorObj ''Error'' ''EXAI stream timeout''))
   \<and> Local_makeRequest default_adapter unreachable ''/debug'' (submission 1 True None None)
       = Inl (ErrorObj ''Error'' ''EXAI request failed: fetch failed'')
   \<and> error_name (ErrorObj ''Error'' ''EXAI request failed: fetch failed'') = ''Error''
   \<and> snd (Supabase_streamResponse remote_adapter json_lines unreachable ''debug''
             (submission 1 True None None))
       = Some (ErrorObj ''Error'' ''EXAI stream failed: fetch failed'')
   \<and> error_name (ErrorObj ''Error'' ''EXAI stream failed: fetch failed'') = ''Error''"
proof -
  let ?p = "submission 1 True None None"
  note t = timeout_is_a_plain_error
             [of default_adapter timing_out "''/debug''" ?p remote_adapter "''debug''" json_lines]
  have d: "timer_delay (timeout default_adapter) = 300000"
          "timer_delay (sb_timeout remote_adapter) = 300000"
    by (simp_all add: timer_delay_def default_adapter_def remote_adapter_def)
  have l: "fst (timing_out url ?p) = 600000" for url
    by (simp add: timing_out_def)
  have r1: "timer_delay (timeout default_adapter)
              \<le> fst (timing_out (daemonUrl default_adapter @ ''/debug'') ?p)"
    and r2: "timer_delay (sb_timeout remote_adapter)
              \<le> fst (timing_out (exaiUrl remote_adapter @ ''/debug'') ?p)"
    and r3: "timer_delay (timeout default_adapter)
              \<le> fst (timing_out (daemonUrl default_adapter @ ''/'' @ ''debug'' @ ''/stream'') ?p)"
    and r4: "timer_delay (sb_timeout remote_adapter)
              \<le> fst (timing_out (exaiUrl remote_adapter @ ''/'' @ ''debug'' @ ''/stream'') ?p)"
    by (simp_all only: d l)
  have u: "Local_makeRequest default_adapter unreachable ''/debug'' ?p
             = Inl (ErrorObj ''Error'' ''EXAI request failed: fetch failed'')"
    by (simp add: Local_makeRequest_def Local_makeRequest_catch_def unreachable_def
          fetch_within_def timer_delay_def default_adapter_def)
  have s: "snd (Supabase_streamResponse remote_adapter json_lines unreachable ''debug'' ?p)
             = Some (ErrorObj ''Error'' ''EXAI stream failed: fetch failed'')"
    by (simp add: Supabase_streamResponse_def Supabase_streamResponse_catch_def unreachable_def
          fetch_within_def timer_delay_def remote_adapter_def rethrown_def)
  note v = timeout_is_a_plain_error
             [of default_adapter unreachable "''/debug''" ?p remote_adapter "''debug''" json_lines]
  have v1: "error_name (ErrorObj ''Error'' ''EXAI request failed: fetch failed'') = ''Error''"
    using v [THEN conjunct2, THEN conjunct2, THEN conjunct2, THEN conjunct2, THEN conjunct1,
             rule_format, of "ErrorObj ''Error'' ''EXAI request failed: fetch failed''"] u
    by simp
  have v2: "error_name (ErrorObj ''Error'' ''EXAI stream failed: fetch failed'') = ''Error''"
    using v [THEN conjunct2, THEN conjunct2, THEN conjunct2, THEN conjunct2, THEN conjunct2,
             rule_format, of "ErrorObj ''Error'' ''EXAI stream failed: fetch failed''"] s
    by simp
  from t [THEN conjunct1, rule_format, OF r1]
       t [THEN conjunct2, THEN conjunct1, rule_format, OF r2]
       t [THEN conjunct2, THEN conjunct2, THEN conjunct1, rule_format, OF r3]
       t [THEN conjunct2, THEN conjunct2, THEN conjunct2, THEN conjunct1, rule_format, OF r4]
       d(1) l u s v1 v2
  show ?thesis by simp
qed

text \<open>
  What is thrown on a timeout is an \<^verbatim>\<open>Error\<close> like the one thrown when the daemon is
  down, from \<^verbatim>\<open>makeRequest\<close> as from \<^verbatim>\<open>streamResponse\<close>.
\<close>

theorem timeout_error_is_generic:
  "Local_makeRequest default_adapter timing_out ''/debug'' (submission 1 True None None)
     = Inl (ErrorObj ''Error'' ''EXAI request timeout'')
   \<and> Supabase_makeRequest remote_adapter timing_out ''/debug'' (submission 1 True None None)
     = Inl (ErrorObj ''Error'' ''EXAI request timeout'')
   \<and> error_name (ErrorObj ''Error'' ''EXAI request timeout'') \<noteq> ''AdapterTimeoutError''
   \<and> Local_makeRequest default_adapter unreachable ''/debug'' (submission 1 True None None)
     = Inl (ErrorObj ''Error'' ''EXAI request failed: fetch failed'')
   \<and> Supabase_makeRequest remote_adapter unreachable ''/debug'' (submission 1 True None None)
     = Inl (ErrorObj ''Error'' ''EXAI request failed: fetch failed'')
   \<and> Local_streamResponse default_adapter json_lines timing_out ''debug''
        (submission 1 True None None)
     = ([], Some (ErrorObj ''Error'' ''EXAI stream timeout''))
   \<and> Supabase_streamResponse remote_adapter json_lines timing_out ''debug''
        (submission 1 True None None)
     = ([], Some (ErrorObj ''Error'' ''EXAI stream timeout''))
   \<and> error_name (ErrorObj ''Error'' ''EXAI stream timeout'') \<noteq> ''AdapterTimeoutError''"
  by (simp add: Local_makeRequest_def Local_makeRequest_catch_def Supabase_makeRequest_def
        Supabase_makeRequest_catch_def Local_streamResponse_def Supabase_streamResponse_def
        Local_streamResponse_catch_def Supabase_streamResponse_catch_def rethrown_def
        timing_out_def unreachable_def AbortError_def fetch_within_def timer_delay_def
        default_adapter_def remote_adapter_def)

text \<open>
  Claim C7, at an input where the two implementations differ. The contract's
  \<^verbatim>\<open>UpdateConversationInput\<close> allows a new \<^verbatim>\<open>toolType\<close>. Asked to change the tool type
  of conversation \<^verbatim>\<open>C1\<close> from \<^verbatim>\<open>debug\<close> to \<^verbatim>\<open>analyze\<close>, the local adapter returns and
  stores the conversation with the new tool type, the Supabase adapter returns and
  stores it with the old one.
\<close>

theorem updateConversation_differs:
  "map_sum id cv_toolType (fst (Local_updateConversation ''C1'' retype 9 (stored ''running'' 1)))
     = Inr ''analyze''
   \<and> map_sum id cv_toolType (fst (Supabase_updateConversation ''C1'' retype 9 (stored ''running'' 1)))
     = Inr ''debug''
   \<and> map_option cv_toolType
        (Local_getConversation ''C1''
           (snd (Local_updateConversation ''C1'' retype 9 (stored ''running'' 1))))
     = Some ''analyze''
   \<and> map_option cv_toolType
        (Local_getConversation ''C1''
           (snd (Supabase_updateConversation ''C1'' retype 9 (stored ''running'' 1))))
     = Some ''debug''"
  by (simp add: Local_updateConversation_def Supabase_updateConversation_def retype_def
        stored_def apply_UpdateConversationInput_def Local_getConversation_def Let_def)

section \<open>Results about the factory\<close>

lemma getMode_cases:
  "getMode e = (if e ''ADAPTER_MODE'' = Some ''supabase'' then ModeSupabase else ModeLocal)"
  by (simp add: getMode_def Let_def)

text \<open>
  Claim C10. Whenever the environment variable \<^verbatim>\<open>ADAPTER_MODE\<close> is anything but the exact
  string \<^verbatim>\<open>local\<close> or the exact string \<^verbatim>\<open>supabase\<close> (unset included),
  \<^verbatim>\<open>getMode\<close> answers \<^verbatim>\<open>local\<close>; and from any state of the factory both adapter
  getters then return an adapter instead of throwing, the adapters being the local ones
  (the only ones the factory constructs).
\<close>

theorem getMode_invalid_defaults_to_local:
  assumes "e ''ADAPTER_MODE'' \<noteq> Some ''local''"
      and "e ''ADAPTER_MODE'' \<noteq> Some ''supabase''"
  shows "getMode e = ModeLocal
       \<and> (\<exists>a. fst (getExaiAdapter e f) = Inr a)
       \<and> fst (getDatabaseAdapter e f) = Inr LocalDatabaseAdapter"
proof -
  have m: "getMode e = ModeLocal"
    using assms by (simp add: getMode_cases)
  have x: "\<exists>a. fst (getExaiAdapter e f) = Inr a"
    by (cases "exaiAdapter f")
       (simp_all add: getExaiAdapter_def createExaiAdapter_def m Let_def)
  have d: "fst (getDatabaseAdapter e f) = Inr LocalDatabaseAdapter"
  proof (cases "databaseAdapter f")
    case None
    then show ?thesis
      by (simp add: getDatabaseAdapter_def createDatabaseAdapter_def m Let_def)
  next
    case (Some d)
    then show ?thesis
      by (cases d) (simp add: getDatabaseAdapter_def createDatabaseAdapter_def m Let_def)
  qed
  from m x d show ?thesis by simp
qed

theorem getMode_invalid_defaults_to_local_witness:
  "getMode [''ADAPTER_MODE'' \<mapsto> ''Supabase''] = ModeLocal
   \<and> (\<exists>a. fst (getExaiAdapter [''ADAPTER_MODE'' \<mapsto> ''Supabase''] reset) = Inr a)
   \<and> fst (getDatabaseAdapter [''ADAPTER_MODE'' \<mapsto> ''Supabase''] reset) = Inr LocalDatabaseAdapter
   \<and> getMode Map.empty = ModeLocal"
  using getMode_invalid_defaults_to_local [of "[''ADAPTER_MODE'' \<mapsto> ''Supabase'']" reset]
        getMode_invalid_defaults_to_local [of Map.empty reset]
  by simp


end
